theory Spec2Isabelle
  imports Complex_Main
begin

section \<open>Numbers\<close>

text \<open>
  The program computes with JavaScript numbers, which are IEEE 754 binary64 values.
  Two embeddings are used.

  The control flow of the program (which branch is taken, which object is hit, which
  bytes are written where) is embedded over the mathematical reals: every arithmetic
  operation is exact and the constant \<open>0.001\<close> is the real number \<open>1/1000\<close>. The
  definitions of this kind carry the names of the source.

  The numeric results of \<open>Vector3.length\<close>, \<open>Vector3.normalize\<close>, the \<open>Ray\<close> constructor,
  \<open>Sphere.intersect\<close> and \<open>Sphere.normalAt\<close> are embedded a second time in binary64
  arithmetic, with correct rounding to nearest (ties to even), overflow to the
  infinities, gradual underflow and NaN. These definitions carry the suffix \<open>64\<close>.
\<close>

section \<open>Vector3\<close>

text \<open>
  \<open>class Vector3\<close> with the fields \<open>x\<close>, \<open>y\<close>, \<open>z\<close>; the selectors are named
  \<open>vx\<close>, \<open>vy\<close>, \<open>vz\<close> so that \<open>x\<close> and \<open>y\<close> stay free for pixel coordinates.
\<close>

datatype Vector3 = Vector3 (vx: real) (vy: real) (vz: real)

definition add :: "Vector3 \<Rightarrow> Vector3 \<Rightarrow> Vector3" where
  "add u v = Vector3 (vx u + vx v) (vy u + vy v) (vz u + vz v)"

definition subtract :: "Vector3 \<Rightarrow> Vector3 \<Rightarrow> Vector3" where
  "subtract u v = Vector3 (vx u - vx v) (vy u - vy v) (vz u - vz v)"

definition multiply :: "Vector3 \<Rightarrow> real \<Rightarrow> Vector3" where
  "multiply u scalar = Vector3 (vx u * scalar) (vy u * scalar) (vz u * scalar)"

definition dot :: "Vector3 \<Rightarrow> Vector3 \<Rightarrow> real" where
  "dot u v = vx u * vx v + vy u * vy v + vz u * vz v"

definition cross :: "Vector3 \<Rightarrow> Vector3 \<Rightarrow> Vector3" where
  "cross u v = Vector3 (vy u * vz v - vz u * vy v)
                       (vz u * vx v - vx u * vz v)
                       (vx u * vy v - vy u * vx v)"

definition length_vec :: "Vector3 \<Rightarrow> real" where
  "length_vec u = sqrt (vx u * vx u + vy u * vy u + vz u * vz u)"

definition normalize_vec :: "Vector3 \<Rightarrow> Vector3" where
  "normalize_vec u =
     (let len = length_vec u
      in if len = 0 then Vector3 0 0 0
         else Vector3 (vx u / len) (vy u / len) (vz u / len))"

definition distanceTo :: "Vector3 \<Rightarrow> Vector3 \<Rightarrow> real" where
  "distanceTo u v =
     (let dx = vx u - vx v; dy = vy u - vy v; dz = vz u - vz v
      in sqrt (dx * dx + dy * dy + dz * dz))"

section \<open>Ray\<close>

record Ray =
  origin :: Vector3
  direction :: Vector3

text \<open>The constructor \<open>new Ray(origin, direction)\<close> normalizes the direction.\<close>

definition new_Ray :: "Vector3 \<Rightarrow> Vector3 \<Rightarrow> Ray" where
  "new_Ray orig dir = \<lparr>origin = orig, direction = normalize_vec dir\<rparr>"

definition pointAt :: "Ray \<Rightarrow> real \<Rightarrow> Vector3" where
  "pointAt ray t = add (origin ray) (multiply (direction ray) t)"

section \<open>Scene objects\<close>

text \<open>
  \<open>class SceneObject\<close> and its subclasses \<open>Sphere\<close> and \<open>Plane\<close>. Every object has a
  \<open>position\<close> and a \<open>color\<close>; a sphere adds its \<open>radius\<close>, a plane its \<open>normal\<close>.
  \<open>null\<close> is \<open>None\<close>.
\<close>

datatype SceneObject =
    SceneObject (position: Vector3) (color: Vector3)
  | Sphere (position: Vector3) (color: Vector3) (radius: real)
  | Plane (position: Vector3) (color: Vector3) (normal: Vector3)

text \<open>The constructors, with the argument order of the source.\<close>

definition new_Sphere :: "Vector3 \<Rightarrow> real \<Rightarrow> Vector3 \<Rightarrow> SceneObject" where
  "new_Sphere pos r col = Sphere pos col r"

definition new_Plane :: "Vector3 \<Rightarrow> Vector3 \<Rightarrow> Vector3 \<Rightarrow> SceneObject" where
  "new_Plane pos n col = Plane pos col (normalize_vec n)"

fun intersect :: "SceneObject \<Rightarrow> Ray \<Rightarrow> real option" where
  "intersect (SceneObject pos col) ray = None"
| "intersect (Sphere pos col r) ray =
     (let oc = subtract (origin ray) pos;
          a = dot (direction ray) (direction ray);
          b = 2 * dot oc (direction ray);
          c = dot oc oc - r * r;
          discriminant = b * b - 4 * a * c
      in if discriminant < 0 then None
         else let t = (- b - sqrt discriminant) / (2 * a)
              in if t > 1 / 1000 then Some t
                 else let t2 = (- b + sqrt discriminant) / (2 * a)
                      in if t2 > 1 / 1000 then Some t2 else None)"
| "intersect (Plane pos col n) ray =
     (let denom = dot n (direction ray)
      in if \<bar>denom\<bar> > 1 / 1000
         then let t = dot (subtract pos (origin ray)) n / denom
              in if t \<ge> 1 / 1000 then Some t else None
         else None)"

fun normalAt :: "SceneObject \<Rightarrow> Vector3 \<Rightarrow> Vector3" where
  "normalAt (SceneObject pos col) point = Vector3 0 0 0"
| "normalAt (Sphere pos col r) point = normalize_vec (subtract point pos)"
| "normalAt (Plane pos col n) point = n"

section \<open>Light and Scene\<close>

text \<open>\<open>class Light\<close>: the field \<open>position\<close> is named \<open>position_light\<close> here.\<close>

record Light =
  position_light :: Vector3
  intensity :: real

record Scene =
  objects :: "SceneObject list"
  lights :: "Light list"
  backgroundColor :: Vector3

definition new_Scene :: Scene where
  "new_Scene = \<lparr>objects = [], lights = [], backgroundColor = Vector3 (1 / 10) (1 / 10) (2 / 10)\<rparr>"

definition addObject :: "Scene \<Rightarrow> SceneObject \<Rightarrow> Scene" where
  "addObject s object = s\<lparr>objects := objects s @ [object]\<rparr>"

definition addLight :: "Scene \<Rightarrow> Light \<Rightarrow> Scene" where
  "addLight s light = s\<lparr>lights := lights s @ [light]\<rparr>"

subsection \<open>The nearest-hit loop of \<open>trace\<close>\<close>

text \<open>
  The loop variables \<open>closestIntersection\<close> and \<open>closestObject\<close> are assigned together,
  so the loop state is one optional pair: \<open>None\<close> while both are \<open>null\<close>.
\<close>

definition closestStep ::
  "Ray \<Rightarrow> (real \<times> SceneObject) option \<Rightarrow> SceneObject \<Rightarrow> (real \<times> SceneObject) option" where
  "closestStep ray closest object =
     (case intersect object ray of
        None \<Rightarrow> closest
      | Some t \<Rightarrow>
          (case closest of
             None \<Rightarrow> Some (t, object)
           | Some (closestIntersection, closestObject) \<Rightarrow>
               if t < closestIntersection then Some (t, object) else closest))"

fun closestLoop ::
  "Ray \<Rightarrow> SceneObject list \<Rightarrow> (real \<times> SceneObject) option \<Rightarrow> (real \<times> SceneObject) option" where
  "closestLoop ray [] closest = closest"
| "closestLoop ray (object # rest) closest = closestLoop ray rest (closestStep ray closest object)"

subsection \<open>The shadow test and the light loop of \<open>trace\<close>\<close>

text \<open>The inner loop over \<open>this.objects\<close>; \<open>True\<close> is the \<open>break\<close> with \<open>inShadow = true\<close>.\<close>

fun inShadowLoop :: "Ray \<Rightarrow> Light \<Rightarrow> Vector3 \<Rightarrow> SceneObject list \<Rightarrow> bool" where
  "inShadowLoop shadowRay light intersectionPoint [] = False"
| "inShadowLoop shadowRay light intersectionPoint (obj # rest) =
     (case intersect obj shadowRay of
        None \<Rightarrow> inShadowLoop shadowRay light intersectionPoint rest
      | Some shadowT \<Rightarrow>
          if shadowT < distanceTo (position_light light) intersectionPoint then True
          else inShadowLoop shadowRay light intersectionPoint rest)"

text \<open>
  What one light adds by diffuse shading: \<open>None\<close> when the point is in shadow of the
  light, otherwise \<open>diffuseColor\<close>.
\<close>

definition diffuseColor ::
  "Scene \<Rightarrow> SceneObject \<Rightarrow> Vector3 \<Rightarrow> Vector3 \<Rightarrow> Light \<Rightarrow> Vector3 option" where
  "diffuseColor s closestObject intersectionPoint n light =
     (let lightDirection = normalize_vec (subtract (position_light light) intersectionPoint);
          shadowRay = new_Ray (add intersectionPoint (multiply n (1 / 1000))) lightDirection;
          inShadow = inShadowLoop shadowRay light intersectionPoint (objects s)
      in if \<not> inShadow
         then let diffuse = max 0 (dot n lightDirection)
              in Some (multiply (color closestObject) (diffuse * intensity light))
         else None)"

text \<open>One iteration of the loop over \<open>this.lights\<close>, on the accumulated colour \<open>acc\<close>.\<close>

definition lightStep ::
  "Scene \<Rightarrow> SceneObject \<Rightarrow> Vector3 \<Rightarrow> Vector3 \<Rightarrow> Vector3 \<Rightarrow> Light \<Rightarrow> Vector3" where
  "lightStep s closestObject intersectionPoint n acc light =
     (let acc1 = (case diffuseColor s closestObject intersectionPoint n light of
                    None \<Rightarrow> acc
                  | Some d \<Rightarrow> add acc d);
          ambient = 2 / 10;
          ambientColor = multiply (color closestObject) ambient
      in add acc1 ambientColor)"

fun lightLoop ::
  "Scene \<Rightarrow> SceneObject \<Rightarrow> Vector3 \<Rightarrow> Vector3 \<Rightarrow> Light list \<Rightarrow> Vector3 \<Rightarrow> Vector3" where
  "lightLoop s closestObject intersectionPoint n [] acc = acc"
| "lightLoop s closestObject intersectionPoint n (light # rest) acc =
     lightLoop s closestObject intersectionPoint n rest
       (lightStep s closestObject intersectionPoint n acc light)"

definition clampColor :: "Vector3 \<Rightarrow> Vector3" where
  "clampColor c = Vector3 (min 1 (max 0 (vx c))) (min 1 (max 0 (vy c))) (min 1 (max 0 (vz c)))"

text \<open>The hit path of \<open>trace\<close>: everything after the nearest hit is known.\<close>

definition shade :: "Scene \<Rightarrow> Ray \<Rightarrow> real \<Rightarrow> SceneObject \<Rightarrow> Vector3" where
  "shade s ray closestIntersection closestObject =
     (let intersectionPoint = pointAt ray closestIntersection;
          n = normalAt closestObject intersectionPoint
      in clampColor (lightLoop s closestObject intersectionPoint n (lights s) (Vector3 0 0 0)))"

definition trace :: "Scene \<Rightarrow> Ray \<Rightarrow> real \<Rightarrow> real \<Rightarrow> Vector3" where
  "trace s ray depth maxDepth =
     (if depth \<ge> maxDepth then backgroundColor s
      else case closestLoop ray (objects s) None of
             None \<Rightarrow> backgroundColor s
           | Some (closestIntersection, closestObject) \<Rightarrow>
               shade s ray closestIntersection closestObject)"

section \<open>Renderer\<close>

text \<open>
  \<open>imageData.data\<close> is the canvas' byte array (a \<open>Uint8ClampedArray\<close>) of
  \<open>width * height * 4\<close> elements. Storing a number in it clamps the number to
  \<open>0..255\<close>; the numbers stored by \<open>render\<close> are integers. A store outside the array
  leaves it unchanged, as \<open>list_update\<close> does.
\<close>

definition store_clamped :: "int \<Rightarrow> nat" where
  "store_clamped v = nat (min 255 (max 0 v))"

record Renderer =
  scene :: Scene
  width :: nat
  height :: nat
  imageData :: "nat list"

text \<open>
  The constructor, from the size of the canvas. \<open>createImageData\<close> raises when a side is
  zero (\<open>None\<close>) and returns an array of zeros otherwise.
\<close>

definition new_Renderer :: "nat \<Rightarrow> nat \<Rightarrow> Scene \<Rightarrow> Renderer option" where
  "new_Renderer canvas_width canvas_height s =
     (if canvas_width = 0 \<or> canvas_height = 0 then None
      else Some \<lparr>scene = s, width = canvas_width, height = canvas_height,
                 imageData = replicate (canvas_width * canvas_height * 4) 0\<rparr>)"

definition cameraPosition :: Vector3 where
  "cameraPosition = Vector3 0 2 10"

text \<open>
  The body of the inner loop; \<open>trace(ray)\<close> takes the defaults \<open>depth = 0\<close> and
  \<open>maxDepth = 3\<close>. The final \<open>putImageData\<close> hands the buffer to the canvas and
  changes nothing in the renderer; it is not part of the embedding.
\<close>

definition renderPixel :: "Scene \<Rightarrow> nat \<Rightarrow> nat \<Rightarrow> nat \<Rightarrow> nat \<Rightarrow> nat list \<Rightarrow> nat list" where
  "renderPixel s W H y x data =
     (let px = (real x / real W) * 2 - 1;
          py = - (real y / real H) * 2 + 1;
          rayDirection = normalize_vec (Vector3 px py (- 1));
          ray = new_Ray cameraPosition rayDirection;
          c = trace s ray 0 3;
          r = \<lfloor>vx c * 255\<rfloor>;
          g = \<lfloor>vy c * 255\<rfloor>;
          b = \<lfloor>vz c * 255\<rfloor>;
          index = (y * W + x) * 4
      in data[index := store_clamped r,
              index + 1 := store_clamped g,
              index + 2 := store_clamped b,
              index + 3 := store_clamped 255])"

function renderCols :: "Scene \<Rightarrow> nat \<Rightarrow> nat \<Rightarrow> nat \<Rightarrow> nat \<Rightarrow> nat list \<Rightarrow> nat list" where
  "renderCols s W H y x data =
     (if x < W then renderCols s W H y (Suc x) (renderPixel s W H y x data) else data)"
  by pat_completeness auto
termination
  by (relation "measure (\<lambda>(s, W, H, y, x, data). W - x)") auto

function renderRows :: "Scene \<Rightarrow> nat \<Rightarrow> nat \<Rightarrow> nat \<Rightarrow> nat list \<Rightarrow> nat list" where
  "renderRows s W H y data =
     (if y < H then renderRows s W H (Suc y) (renderCols s W H y 0 data) else data)"
  by pat_completeness auto
termination
  by (relation "measure (\<lambda>(s, W, H, y, data). H - y)") auto

definition render :: "Renderer \<Rightarrow> Renderer" where
  "render rd = rd\<lparr>imageData := renderRows (scene rd) (width rd) (height rd) 0 (imageData rd)\<rparr>"

section \<open>Binary64 arithmetic\<close>

text \<open>
  A binary64 value is a finite real, an infinity or NaN. The two zeros are not
  distinguished: they compare equal in the program, and their sign matters only for
  a division by zero.

  \<open>rne r\<close> is the real \<open>r\<close> rounded to the nearest number with a 53 bit significand,
  ties to the even significand, with the exponent bounded below (subnormal numbers)
  and not above. \<open>round64\<close> adds the overflow of IEEE 754: a real of magnitude at least
  \<open>2^1024 - 2^970\<close> rounds to an infinity. Each operation returns the rounded exact
  result of its finite operands and follows IEEE 754 on infinities and NaN.
  \<open>Math.sqrt\<close> is taken to be the correctly rounded square root.
\<close>

definition round_even :: "real \<Rightarrow> int" where
  "round_even x =
     (let f = \<lfloor>x\<rfloor>; d = x - of_int f
      in if d < 1 / 2 then f else if d > 1 / 2 then f + 1 else if even f then f else f + 1)"

definition rne :: "real \<Rightarrow> real" where
  "rne r =
     (if r = 0 then 0
      else let e = max \<lfloor>log 2 \<bar>r\<bar>\<rfloor> (- 1022);
               q = 2 powr (of_int e - 52)
           in q * of_int (round_even (r / q)))"

datatype float64 = Fin real | PInf | NInf | NaN

definition round64 :: "real \<Rightarrow> float64" where
  "round64 r =
     (if r \<ge> 2 ^ 1024 - 2 ^ 970 then PInf
      else if r \<le> - (2 ^ 1024 - 2 ^ 970) then NInf
      else Fin (rne r))"

fun neg64 :: "float64 \<Rightarrow> float64" where
  "neg64 (Fin a) = Fin (- a)"
| "neg64 PInf = NInf"
| "neg64 NInf = PInf"
| "neg64 NaN = NaN"

fun add64 :: "float64 \<Rightarrow> float64 \<Rightarrow> float64" where
  "add64 (Fin a) (Fin b) = round64 (a + b)"
| "add64 NaN y = NaN"
| "add64 x NaN = NaN"
| "add64 PInf NInf = NaN"
| "add64 NInf PInf = NaN"
| "add64 PInf y = PInf"
| "add64 NInf y = NInf"
| "add64 (Fin a) y = y"


fun mul64 :: "float64 \<Rightarrow> float64 \<Rightarrow> float64" where
  "mul64 (Fin a) (Fin b) = round64 (a * b)"
| "mul64 NaN y = NaN"
| "mul64 x NaN = NaN"
| "mul64 (Fin a) y = (if a = 0 then NaN else if 0 < a then y else neg64 y)"
| "mul64 x (Fin b) = (if b = 0 then NaN else if 0 < b then x else neg64 x)"
| "mul64 PInf y = y"
| "mul64 NInf y = neg64 y"

fun div64 :: "float64 \<Rightarrow> float64 \<Rightarrow> float64" where
  "div64 (Fin a) (Fin b) =
     (if b = 0 then (if a = 0 then NaN else if 0 < a then PInf else NInf)
      else round64 (a / b))"
| "div64 NaN y = NaN"
| "div64 x NaN = NaN"
| "div64 (Fin a) y = Fin 0"
| "div64 x (Fin b) = (if 0 \<le> b then x else neg64 x)"
| "div64 x y = NaN"

fun sqrt64 :: "float64 \<Rightarrow> float64" where
  "sqrt64 (Fin a) = (if a < 0 then NaN else round64 (sqrt a))"
| "sqrt64 PInf = PInf"
| "sqrt64 NInf = NaN"
| "sqrt64 NaN = NaN"



definition eq64 :: "float64 \<Rightarrow> float64 \<Rightarrow> bool" where
  "eq64 x y \<longleftrightarrow> x \<noteq> NaN \<and> x = y"

text \<open>\<open>Vector3\<close> in binary64 arithmetic.\<close>

datatype Vector3_64 = Vector3_64 (x64: float64) (y64: float64) (z64: float64)





definition length_64 :: "Vector3_64 \<Rightarrow> float64" where
  "length_64 u =
     sqrt64 (add64 (add64 (mul64 (x64 u) (x64 u)) (mul64 (y64 u) (y64 u)))
                   (mul64 (z64 u) (z64 u)))"

definition normalize_64 :: "Vector3_64 \<Rightarrow> Vector3_64" where
  "normalize_64 u =
     (let len = length_64 u
      in if eq64 len (Fin 0) then Vector3_64 (Fin 0) (Fin 0) (Fin 0)
         else Vector3_64 (div64 (x64 u) len) (div64 (y64 u) len) (div64 (z64 u) len))"







text \<open>The unit roundoff and half the smallest subnormal number bound the rounding error.\<close>

definition unit_roundoff :: real where
  "unit_roundoff = 1 / 2 ^ 53"

definition tiny :: real where
  "tiny = 1 / 2 ^ 1075"

section \<open>Notions used to state the properties\<close>

text \<open>
  \<open>firstNearest ray objs i t\<close>: the object at index \<open>i\<close> returns the distance \<open>t\<close>, no
  object of the list returns a smaller distance, and no object listed before \<open>i\<close>
  returns \<open>t\<close>.
\<close>

definition firstNearest :: "Ray \<Rightarrow> SceneObject list \<Rightarrow> nat \<Rightarrow> real \<Rightarrow> bool" where
  "firstNearest ray objs i t \<longleftrightarrow>
     i < length objs \<and> intersect (objs ! i) ray = Some t \<and>
     list_all (\<lambda>ob. case intersect ob ray of None \<Rightarrow> True | Some t' \<Rightarrow> t \<le> t') objs \<and>
     list_all (\<lambda>ob. intersect ob ray \<noteq> Some t) (take i objs)"

text \<open>The sum of the diffuse contributions of the lights that are not shadowed.\<close>

fun diffuseTotal :: "Scene \<Rightarrow> SceneObject \<Rightarrow> Vector3 \<Rightarrow> Vector3 \<Rightarrow> Light list \<Rightarrow> Vector3" where
  "diffuseTotal s ob p n [] = Vector3 0 0 0"
| "diffuseTotal s ob p n (light # rest) =
     add (case diffuseColor s ob p n light of None \<Rightarrow> Vector3 0 0 0 | Some d \<Rightarrow> d)
         (diffuseTotal s ob p n rest)"

text \<open>
  The colour of pixel \<open>(x, y)\<close> of a \<open>W\<close> by \<open>H\<close> frame, its four bytes, a row of the
  frame and the whole frame in row-major order.
\<close>

definition pixelColor :: "Scene \<Rightarrow> nat \<Rightarrow> nat \<Rightarrow> nat \<Rightarrow> nat \<Rightarrow> Vector3" where
  "pixelColor s W H x y =
     trace s (new_Ray cameraPosition
                (Vector3 ((real x / real W) * 2 - 1) (- (real y / real H) * 2 + 1) (- 1))) 0 3"

definition pixelBytes :: "Scene \<Rightarrow> nat \<Rightarrow> nat \<Rightarrow> nat \<Rightarrow> nat \<Rightarrow> nat list" where
  "pixelBytes s W H x y =
     (let c = pixelColor s W H x y
      in [store_clamped \<lfloor>vx c * 255\<rfloor>, store_clamped \<lfloor>vy c * 255\<rfloor>,
          store_clamped \<lfloor>vz c * 255\<rfloor>, 255])"

definition rowBytes :: "Scene \<Rightarrow> nat \<Rightarrow> nat \<Rightarrow> nat \<Rightarrow> nat list" where
  "rowBytes s W H y = concat (map (\<lambda>x. pixelBytes s W H x y) [0..<W])"

definition frameBytes :: "Scene \<Rightarrow> nat \<Rightarrow> nat \<Rightarrow> nat list" where
  "frameBytes s W H = concat (map (rowBytes s W H) [0..<H])"

section \<open>Vector algebra\<close>

lemma dot_self_nonneg: "0 \<le> dot v v"
  by (simp add: dot_def)

lemma length_vec_nonneg: "0 \<le> length_vec v"
  by (simp add: length_vec_def)

lemma length_vec_square: "length_vec v * length_vec v = vx v * vx v + vy v * vy v + vz v * vz v"
  by (simp add: length_vec_def)

lemma length_normalize_vec:
  assumes "length_vec v \<noteq> 0"
  shows "length_vec (normalize_vec v) = 1"
proof -
  define l where "l = length_vec v"
  have l0: "l \<noteq> 0" using assms by (simp add: l_def)
  have l2: "vx v * vx v + vy v * vy v + vz v * vz v = l * l"
    by (simp add: l_def length_vec_square)
  have "(vx v / l) * (vx v / l) + (vy v / l) * (vy v / l) + (vz v / l) * (vz v / l)
        = (vx v * vx v + vy v * vy v + vz v * vz v) / (l * l)"
    by (simp add: add_divide_distrib)
  also have "\<dots> = 1" using l0 l2 by simp
  finally show ?thesis
    using l0 by (simp add: normalize_vec_def Let_def l_def[symmetric] length_vec_def[of "Vector3 _ _ _"])
qed

lemma normalize_vec_idem: "normalize_vec (normalize_vec v) = normalize_vec v"
proof (cases "length_vec v = 0")
  case True
  then show ?thesis by (simp add: normalize_vec_def length_vec_def[of "Vector3 _ _ _"])
next
  case False
  from length_normalize_vec[OF False] show ?thesis
    by (simp add: normalize_vec_def[of "normalize_vec v"])
qed

section \<open>Quadratic equations\<close>

lemma quad_complete_square:
  fixes a b c t :: real
  assumes "a \<noteq> 0"
  shows "a * t\<^sup>2 + b * t + c = 0 \<longleftrightarrow> (2 * a * t + b)\<^sup>2 = b * b - 4 * a * c"
proof -
  have "(2 * a * t + b)\<^sup>2 - (b * b - 4 * a * c) = 4 * a * (a * t\<^sup>2 + b * t + c)"
    by (simp add: power2_eq_square algebra_simps)
  with assms show ?thesis by auto
qed

lemma quad_roots:
  fixes a b c t :: real
  assumes a: "a \<noteq> 0" and D: "0 \<le> b * b - 4 * a * c"
  shows "a * t\<^sup>2 + b * t + c = 0 \<longleftrightarrow>
         t = (- b - sqrt (b * b - 4 * a * c)) / (2 * a) \<or> t = (- b + sqrt (b * b - 4 * a * c)) / (2 * a)"
proof -
  define s where "s = sqrt (b * b - 4 * a * c)"
  have s2: "s\<^sup>2 = b * b - 4 * a * c" using D by (simp add: s_def)
  have "a * t\<^sup>2 + b * t + c = 0 \<longleftrightarrow> (2 * a * t + b)\<^sup>2 = s\<^sup>2"
    using quad_complete_square[OF a] s2 by simp
  also have "\<dots> \<longleftrightarrow> 2 * a * t + b = s \<or> 2 * a * t + b = - s"
    by (simp add: power2_eq_iff)
  also have "\<dots> \<longleftrightarrow> t = (- b - s) / (2 * a) \<or> t = (- b + s) / (2 * a)"
    using a by (auto simp: field_simps)
  finally show ?thesis unfolding s_def .
qed

section \<open>Sphere.intersect\<close>

text \<open>
  C1. For every ray and every sphere, with \<open>a = direction\<cdot>direction\<close>,
  \<open>b = 2\<cdot>(origin - center)\<cdot>direction\<close>, \<open>c = (origin - center)\<cdot>(origin - center) - radius\<^sup>2\<close>
  and \<open>D = b\<^sup>2 - 4ac\<close>: \<open>intersect\<close> returns nothing when \<open>D < 0\<close>. Otherwise
  \<open>t1 = (-b - sqrt D) / 2a\<close> is at most \<open>t2 = (-b + sqrt D) / 2a\<close>, the two are exactly
  the roots of \<open>a t\<^sup>2 + b t + c\<close> when \<open>a\<close> is not zero, and \<open>intersect\<close> returns \<open>t1\<close>
  if \<open>t1 > 0.001\<close>, else \<open>t2\<close> if \<open>t2 > 0.001\<close>, else nothing.
\<close>

theorem sphere_intersect_ordered_roots:
  "let oc = subtract (origin ray) pos;
       a = dot (direction ray) (direction ray);
       b = 2 * dot oc (direction ray);
       c = dot oc oc - r * r;
       D = b * b - 4 * a * c;
       t1 = (- b - sqrt D) / (2 * a);
       t2 = (- b + sqrt D) / (2 * a)
   in (D < 0 \<longrightarrow> intersect (Sphere pos col r) ray = None) \<and>
      (0 \<le> D \<longrightarrow>
         t1 \<le> t2 \<and>
         (a \<noteq> 0 \<longrightarrow> (\<forall>t. a * t\<^sup>2 + b * t + c = 0 \<longleftrightarrow> t = t1 \<or> t = t2)) \<and>
         intersect (Sphere pos col r) ray =
           (if t1 > 1 / 1000 then Some t1 else if t2 > 1 / 1000 then Some t2 else None))"
proof -
  define oc where "oc = subtract (origin ray) pos"
  define a where "a = dot (direction ray) (direction ray)"
  define b where "b = 2 * dot oc (direction ray)"
  define c where "c = dot oc oc - r * r"
  define D where "D = b * b - 4 * a * c"
  define t1 where "t1 = (- b - sqrt D) / (2 * a)"
  define t2 where "t2 = (- b + sqrt D) / (2 * a)"
  have a0: "0 \<le> a" unfolding a_def by (rule dot_self_nonneg)
  have miss: "intersect (Sphere pos col r) ray = None" if "D < 0"
    using that by (simp add: Let_def oc_def a_def b_def c_def D_def)
  have ord: "t1 \<le> t2" if "0 \<le> D"
    unfolding t1_def t2_def using a0 that by (intro divide_right_mono) simp_all
  have roots: "(a * t\<^sup>2 + b * t + c = 0) = (t = t1 \<or> t = t2)" if "0 \<le> D" "a \<noteq> 0" for t
    using quad_roots[of a b c t] that unfolding t1_def t2_def D_def by simp
  have res: "intersect (Sphere pos col r) ray =
           (if t1 > 1 / 1000 then Some t1 else if t2 > 1 / 1000 then Some t2 else None)" if "0 \<le> D"
    using that by (simp add: Let_def oc_def a_def b_def c_def D_def t1_def t2_def)
  show ?thesis
    unfolding Let_def oc_def[symmetric] a_def[symmetric] b_def[symmetric] c_def[symmetric]
      D_def[symmetric] t1_def[symmetric] t2_def[symmetric]
    using miss ord roots res by blast
qed

theorem sphere_intersect_ordered_roots_witness:
  "intersect (Sphere (Vector3 0 0 0) (Vector3 1 0 0) 1)
     \<lparr>origin = Vector3 0 5 3, direction = Vector3 0 0 (- 1)\<rparr> = None \<and>
   intersect (Sphere (Vector3 0 0 0) (Vector3 1 0 0) 1)
     \<lparr>origin = Vector3 0 0 3, direction = Vector3 0 0 (- 1)\<rparr> = Some 2 \<and>
   intersect (Sphere (Vector3 0 0 0) (Vector3 1 0 0) 1)
     \<lparr>origin = Vector3 0 0 0, direction = Vector3 0 0 (- 1)\<rparr> = Some 1 \<and>
   intersect (Sphere (Vector3 0 0 0) (Vector3 1 0 0) 1)
     \<lparr>origin = Vector3 0 0 (- 3), direction = Vector3 0 0 (- 1)\<rparr> = None"
  using
    sphere_intersect_ordered_roots[of "\<lparr>origin = Vector3 0 5 3, direction = Vector3 0 0 (- 1)\<rparr>"
      "Vector3 0 0 0" 1 "Vector3 1 0 0"]
    sphere_intersect_ordered_roots[of "\<lparr>origin = Vector3 0 0 3, direction = Vector3 0 0 (- 1)\<rparr>"
      "Vector3 0 0 0" 1 "Vector3 1 0 0"]
    sphere_intersect_ordered_roots[of "\<lparr>origin = Vector3 0 0 0, direction = Vector3 0 0 (- 1)\<rparr>"
      "Vector3 0 0 0" 1 "Vector3 1 0 0"]
    sphere_intersect_ordered_roots[of "\<lparr>origin = Vector3 0 0 (- 3), direction = Vector3 0 0 (- 1)\<rparr>"
      "Vector3 0 0 0" 1 "Vector3 1 0 0"]
  by (simp add: Let_def dot_def subtract_def)

section \<open>Plane.intersect\<close>

text \<open>
  C5. For every ray and every plane, with \<open>denom = normal\<cdot>direction\<close>: \<open>intersect\<close>
  returns nothing when \<open>|denom| \<le> 0.001\<close>, in particular when \<open>denom = 0\<close>, whatever the
  origin; otherwise, with \<open>t = (position - origin)\<cdot>normal / denom\<close>, it returns \<open>t\<close> when
  \<open>t \<ge> 0.001\<close> and nothing when \<open>t < 0.001\<close>.
\<close>

theorem plane_intersect_policy:
  "let denom = dot n (direction ray);
       t = dot (subtract pos (origin ray)) n / denom
   in (\<bar>denom\<bar> \<le> 1 / 1000 \<longrightarrow> intersect (Plane pos col n) ray = None) \<and>
      (denom = 0 \<longrightarrow> intersect (Plane pos col n) ray = None) \<and>
      (\<bar>denom\<bar> > 1 / 1000 \<and> t \<ge> 1 / 1000 \<longrightarrow> intersect (Plane pos col n) ray = Some t) \<and>
      (\<bar>denom\<bar> > 1 / 1000 \<and> t < 1 / 1000 \<longrightarrow> intersect (Plane pos col n) ray = None)"
  by (simp add: Let_def)

theorem plane_intersect_policy_witness:
  "intersect (Plane (Vector3 0 (- 2) 0) (Vector3 1 1 1) (Vector3 0 1 0))
       \<lparr>origin = Vector3 0 2 10, direction = Vector3 1 0 0\<rparr> = None \<and>
   intersect (Plane (Vector3 0 (- 2) 0) (Vector3 1 1 1) (Vector3 0 1 0))
       \<lparr>origin = Vector3 0 2 10, direction = Vector3 0 (- 1) 0\<rparr> = Some 4 \<and>
   intersect (Plane (Vector3 0 (- 2) 0) (Vector3 1 1 1) (Vector3 0 1 0))
       \<lparr>origin = Vector3 0 2 10, direction = Vector3 0 1 0\<rparr> = None"
  using
    plane_intersect_policy[of "Vector3 0 1 0" "\<lparr>origin = Vector3 0 2 10, direction = Vector3 1 0 0\<rparr>"
      "Vector3 0 (- 2) 0" "Vector3 1 1 1"]
    plane_intersect_policy[of "Vector3 0 1 0" "\<lparr>origin = Vector3 0 2 10, direction = Vector3 0 (- 1) 0\<rparr>"
      "Vector3 0 (- 2) 0" "Vector3 1 1 1"]
    plane_intersect_policy[of "Vector3 0 1 0" "\<lparr>origin = Vector3 0 2 10, direction = Vector3 0 1 0\<rparr>"
      "Vector3 0 (- 2) 0" "Vector3 1 1 1"]
  by (simp add: Let_def dot_def subtract_def)

section \<open>Rounding in binary64 arithmetic\<close>

lemma round_even_error: "\<bar>of_int (round_even x) - x\<bar> \<le> 1 / 2"
  unfolding round_even_def Let_def by (auto; linarith)

lemma round_even_nonneg: "0 \<le> x \<Longrightarrow> 0 \<le> round_even x"
  unfolding round_even_def Let_def by (auto; linarith)

lemma round_even_nonpos: "x \<le> 0 \<Longrightarrow> round_even x \<le> 0"
  unfolding round_even_def Let_def
  by (auto simp: not_less; linarith)

lemma rne_0: "rne 0 = 0"
  by (simp add: rne_def)

lemma rne_error:
  "\<bar>rne r - r\<bar> \<le> unit_roundoff * \<bar>r\<bar> + tiny"
proof (cases "r = 0")
  case True
  then show ?thesis by (simp add: rne_def unit_roundoff_def tiny_def)
next
  case False
  define e where "e = max \<lfloor>log 2 \<bar>r\<bar>\<rfloor> (- 1022)"
  define q :: real where "q = 2 powr (of_int e - 52)"
  have q0: "0 < q" by (simp add: q_def)
  have r: "rne r = q * of_int (round_even (r / q))"
    using False by (simp add: rne_def Let_def e_def q_def)
  have "\<bar>rne r - r\<bar> = q * \<bar>of_int (round_even (r / q)) - r / q\<bar>"
  proof -
    have "rne r - r = q * (of_int (round_even (r / q)) - r / q)"
      using q0 by (simp add: r algebra_simps)
    then show ?thesis using q0 by (simp add: abs_mult)
  qed
  also have "\<dots> \<le> q * (1 / 2)"
    using q0 round_even_error[of "r / q"] by (intro mult_left_mono) simp_all
  finally have half: "\<bar>rne r - r\<bar> \<le> q / 2" by simp
  show ?thesis
  proof (cases "- 1022 \<le> \<lfloor>log 2 \<bar>r\<bar>\<rfloor>")
    case True
    then have e: "e = \<lfloor>log 2 \<bar>r\<bar>\<rfloor>" by (simp add: e_def)
    have "of_int e \<le> log 2 \<bar>r\<bar>" by (simp add: e)
    then have "2 powr (of_int e) \<le> 2 powr (log 2 \<bar>r\<bar>)" by (intro powr_mono) simp_all
    also have "\<dots> = \<bar>r\<bar>" using False by simp
    finally have "2 powr (of_int e) \<le> \<bar>r\<bar>" .
    moreover have "q = 2 powr (of_int e) / 2 ^ 52"
      by (simp add: q_def powr_diff flip: powr_numeral)
    ultimately have "q \<le> \<bar>r\<bar> / 2 ^ 52" by (simp add: divide_right_mono)
    then have "q / 2 \<le> unit_roundoff * \<bar>r\<bar>" by (simp add: unit_roundoff_def)
    moreover have "0 \<le> tiny" by (simp add: tiny_def)
    ultimately show ?thesis using half by linarith
  next
    case False
    then have e: "e = - 1022" by (simp add: e_def)
    have "q = 2 powr (- 1074)" by (simp add: q_def e)
    also have "\<dots> = 1 / 2 ^ 1074" by (simp add: powr_minus_divide flip: powr_numeral)
    finally have "q / 2 = tiny" by (simp only: tiny_def power_Suc[of 2 1074, symmetric] divide_divide_eq_left) simp
    moreover have "0 \<le> unit_roundoff * \<bar>r\<bar>" by (simp add: unit_roundoff_def)
    ultimately show ?thesis using half by linarith
  qed
qed

lemma rne_nonneg: "0 \<le> r \<Longrightarrow> 0 \<le> rne r"
  by (auto simp: rne_def Let_def intro!: mult_nonneg_nonneg round_even_nonneg divide_nonneg_pos)

lemma rne_nonpos: "r \<le> 0 \<Longrightarrow> rne r \<le> 0"
  by (auto simp: rne_def Let_def intro!: mult_nonneg_nonpos round_even_nonpos divide_nonpos_pos)

lemma round64_Fin: "\<bar>r\<bar> \<le> 2 ^ 1023 \<Longrightarrow> round64 r = Fin (rne r)"
  by (auto simp: round64_def)

lemma round64_PInf: "2 ^ 1024 \<le> r \<Longrightarrow> round64 r = PInf"
  by (simp add: round64_def)

lemma round64_0: "round64 0 = Fin 0"
  by (simp add: round64_def rne_0)


lemma tiny_le_scaled:
  assumes "1 / 2 ^ 1000 \<le> S"
  shows "tiny \<le> S / 2 ^ 75"
proof -
  have "tiny = (1 / 2 ^ 1000) / 2 ^ 75"
    by (simp add: tiny_def flip: power_add)
  also have "\<dots> \<le> S / 2 ^ 75" using assms by (intro divide_right_mono) simp_all
  finally show ?thesis .
qed

text \<open>Rounding a value known up to an error.\<close>

lemma rne_close:
  assumes "\<bar>x - X\<bar> \<le> e" and "\<bar>X\<bar> \<le> M"
  shows "\<bar>rne x - X\<bar> \<le> e + unit_roundoff * (M + e) + tiny"
proof -
  have "\<bar>x\<bar> \<le> M + e" using assms by linarith
  then have "unit_roundoff * \<bar>x\<bar> \<le> unit_roundoff * (M + e)"
    by (intro mult_left_mono) (simp_all add: unit_roundoff_def)
  with rne_error[of x] assms show ?thesis by linarith
qed

text \<open>The rounded sum of three rounded squares.\<close>

lemma sum_of_squares_rounded:
  fixes S :: real
  assumes S: "S = X + Y + Z" and nn: "0 \<le> X" "0 \<le> Y" "0 \<le> Z"
    and lo: "1 / 2 ^ 1000 \<le> S"
  defines "sx \<equiv> rne X" and "sy \<equiv> rne Y" and "sz \<equiv> rne Z"
  defines "s1 \<equiv> rne (sx + sy)"
  defines "s \<equiv> rne (s1 + sz)"
  shows "\<bar>s - S\<bar> \<le> S / 2 ^ 51" and "0 \<le> sx" "0 \<le> sy" "0 \<le> sz" "0 \<le> s1"
    and "sx \<le> 2 * S" "sy \<le> 2 * S" "sz \<le> 2 * S" "sx + sy \<le> 2 * S" "s1 + sz \<le> 2 * S"
proof -
  have t: "tiny \<le> S / 2 ^ 75" using lo by (rule tiny_le_scaled)
  have u: "unit_roundoff = 1 / 2 ^ 53" by (simp add: unit_roundoff_def)
  have ex: "\<bar>sx - X\<bar> \<le> unit_roundoff * X + tiny"
    using rne_error[of X] nn by (simp add: sx_def)
  have ey: "\<bar>sy - Y\<bar> \<le> unit_roundoff * Y + tiny"
    using rne_error[of Y] nn by (simp add: sy_def)
  have ez: "\<bar>sz - Z\<bar> \<le> unit_roundoff * Z + tiny"
    using rne_error[of Z] nn by (simp add: sz_def)
  show px: "0 \<le> sx" and py: "0 \<le> sy" and pz: "0 \<le> sz"
    using nn by (simp_all add: sx_def sy_def sz_def rne_nonneg)
  show p1: "0 \<le> s1" using px py by (simp add: s1_def rne_nonneg)
  have e1: "\<bar>s1 - (sx + sy)\<bar> \<le> unit_roundoff * (sx + sy) + tiny"
    using rne_error[of "sx + sy"] px py by (simp add: s1_def)
  have e2: "\<bar>s - (s1 + sz)\<bar> \<le> unit_roundoff * (s1 + sz) + tiny"
    using rne_error[of "s1 + sz"] p1 pz by (simp add: s_def)
  have "(0::real) < 1 / 2 ^ 1000" by simp
  with lo have S0: "0 < S" by linarith
  show "\<bar>s - S\<bar> \<le> S / 2 ^ 51"
    using ex ey ez e1 e2 t nn S S0 unfolding u abs_le_iff by (simp add: field_simps)
  show "sx \<le> 2 * S" "sy \<le> 2 * S" "sz \<le> 2 * S" "sx + sy \<le> 2 * S" "s1 + sz \<le> 2 * S"
    using ex ey ez e1 e2 t nn S S0 unfolding u abs_le_iff by (simp_all add: field_simps)
qed

lemma sqrt_rel_close:
  assumes S: "0 \<le> S" and e: "0 \<le> e" "e \<le> 1" and c: "\<bar>s - S\<bar> \<le> e * S"
  shows "\<bar>sqrt s - sqrt S\<bar> \<le> e * sqrt S"
proof -
  define L where "L = sqrt S"
  have L0: "0 \<le> L" and LL: "L * L = S" using S by (simp_all add: L_def)
  have s0: "0 \<le> s"
  proof -
    have "e * S \<le> 1 * S" using e S by (intro mult_right_mono) simp_all
    with c show ?thesis by linarith
  qed
  have lower: "L * (1 - e) \<le> sqrt s"
  proof (rule real_le_rsqrt)
    have "(L * (1 - e))\<^sup>2 = S * ((1 - e) * (1 - e))"
      by (simp add: power2_eq_square LL[symmetric] algebra_simps)
    also have "\<dots> \<le> S * (1 - e)"
      using S e by (intro mult_left_mono mult_left_le_one_le) simp_all
    also have "\<dots> \<le> s" using c by (simp add: algebra_simps abs_le_iff)
    finally show "(L * (1 - e))\<^sup>2 \<le> s" .
  qed
  have upper: "sqrt s \<le> L * (1 + e)"
  proof (rule real_le_lsqrt)
    show "0 \<le> L * (1 + e)" using L0 e by simp
    have "s \<le> S * (1 + e)" using c by (simp add: algebra_simps abs_le_iff)
    also have "\<dots> \<le> S * ((1 + e) * (1 + e))"
      using S e by (intro mult_left_mono) (simp_all add: algebra_simps)
    also have "\<dots> = (L * (1 + e))\<^sup>2"
      by (simp add: power2_eq_square LL[symmetric] algebra_simps)
    finally show "s \<le> (L * (1 + e))\<^sup>2" .
  qed
  from lower upper show ?thesis
    unfolding L_def[symmetric] by (simp add: abs_le_iff algebra_simps)
qed

lemma sqrt_range:
  assumes "1 / 2 ^ 1000 \<le> S" and "S \<le> 2 ^ 1000"
  shows "1 / 2 ^ 500 \<le> sqrt S" and "sqrt S \<le> 2 ^ 500"
proof -
  have a: "sqrt (2 ^ 1000) = (2::real) ^ 500"
    using real_sqrt_abs[of "2 ^ 500"] by (simp flip: power_mult)
  have "sqrt (1 / 2 ^ 1000) = 1 / sqrt (2 ^ 1000)" by (simp add: real_sqrt_divide)
  then have b: "sqrt (1 / 2 ^ 1000) = 1 / 2 ^ 500" by (simp only: a)
  from assms(1) have "sqrt (1 / 2 ^ 1000) \<le> sqrt S" by (simp only: real_sqrt_le_iff)
  then show "1 / 2 ^ 500 \<le> sqrt S" by (simp only: b)
  from assms(2) have "sqrt S \<le> sqrt (2 ^ 1000)" by (simp only: real_sqrt_le_iff)
  then show "sqrt S \<le> 2 ^ 500" by (simp only: a)
qed

text \<open>Accuracy of \<open>length\<close> in binary64 arithmetic.\<close>

lemma length_64_close:
  fixes x y z :: real
  defines "S \<equiv> x * x + y * y + z * z"
  assumes lo: "1 / 2 ^ 1000 \<le> S" and hi: "S \<le> 2 ^ 1000"
  shows "\<exists>len. length_64 (Vector3_64 (Fin x) (Fin y) (Fin z)) = Fin len \<and>
               \<bar>len - sqrt S\<bar> \<le> sqrt S / 2 ^ 50"
proof -
  define sx where "sx = rne (x * x)"
  define sy where "sy = rne (y * y)"
  define sz where "sz = rne (z * z)"
  define s1 where "s1 = rne (sx + sy)"
  define s where "s = rne (s1 + sz)"
  define L where "L = sqrt S"
  have nn: "0 \<le> x * x" "0 \<le> y * y" "0 \<le> z * z" by simp_all
  note R = sum_of_squares_rounded[OF S_def[THEN meta_eq_to_obj_eq] nn lo,
      folded sx_def sy_def sz_def s1_def s_def]
  have big: "2 * S \<le> 2 ^ 1023"
  proof -
    have "2 * S \<le> 2 * 2 ^ 1000" using hi by simp
    also have "\<dots> \<le> (2::real) ^ 1023" by simp
    finally show ?thesis .
  qed
  have S0: "0 < S"
  proof -
    have "(0::real) < 1 / 2 ^ 1000" by simp
    with lo show ?thesis by linarith
  qed
  have xx: "x * x \<le> S" "y * y \<le> S" "z * z \<le> S" by (simp_all add: S_def)
  have m1: "mul64 (Fin x) (Fin x) = Fin sx"
    using xx S0 big by (simp add: sx_def round64_Fin)
  have m2: "mul64 (Fin y) (Fin y) = Fin sy"
    using xx S0 big by (simp add: sy_def round64_Fin)
  have m3: "mul64 (Fin z) (Fin z) = Fin sz"
    using xx S0 big by (simp add: sz_def round64_Fin)
  have a1: "add64 (Fin sx) (Fin sy) = Fin s1"
    using R(2,3,9) big by (simp add: s1_def round64_Fin)
  have a2: "add64 (Fin s1) (Fin sz) = Fin s"
    using R(4,5,10) big by (simp add: s_def round64_Fin)
  have s0: "0 \<le> s" using R(4,5) by (simp add: s_def rne_nonneg)
  have L0: "0 < L" and LL: "L * L = S" using S0 by (simp_all add: L_def)
  have Lr: "1 / 2 ^ 500 \<le> L" "L \<le> 2 ^ 500"
    using sqrt_range[OF lo hi] by (simp_all add: L_def)
  have sq: "\<bar>sqrt s - L\<bar> \<le> L / 2 ^ 51"
    using sqrt_rel_close[of S "1 / 2 ^ 51" s] R(1) S0 by (simp add: L_def)
  have sqb: "\<bar>sqrt s\<bar> \<le> 2 ^ 1023"
  proof -
    have "sqrt s \<le> L + L / 2 ^ 51" using sq by linarith
    also have "\<dots> \<le> 2 * L" using L0 by (simp add: field_simps)
    also have "\<dots> \<le> 2 * 2 ^ 500" using Lr by simp
    also have "\<dots> \<le> (2::real) ^ 1023" by simp
    finally show ?thesis using s0 by simp
  qed
  have r: "sqrt64 (Fin s) = Fin (rne (sqrt s))"
    using s0 sqb by (simp add: round64_Fin)
  have t: "tiny \<le> L / 2 ^ 75"
  proof -
    have "tiny = (1 / 2 ^ 500) / 2 ^ 575" by (simp add: tiny_def flip: power_add)
    also have "\<dots> \<le> L / 2 ^ 575" using Lr by (intro divide_right_mono) simp_all
    also have "\<dots> \<le> L / 2 ^ 75" using L0 by (intro divide_left_mono) simp_all
    finally show ?thesis .
  qed
  have "\<bar>rne (sqrt s) - L\<bar> \<le> L / 2 ^ 51 + unit_roundoff * (L + L / 2 ^ 51) + tiny"
    using rne_close[OF sq, of L] L0 by simp
  also have "\<dots> \<le> L / 2 ^ 50"
    using t L0 by (simp add: unit_roundoff_def field_simps)
  finally have "\<bar>rne (sqrt s) - L\<bar> \<le> L / 2 ^ 50" .
  moreover have "length_64 (Vector3_64 (Fin x) (Fin y) (Fin z)) = Fin (rne (sqrt s))"
    by (simp add: length_64_def m1 m2 m3 a1 a2 r del: mul64.simps add64.simps sqrt64.simps)
  ultimately show ?thesis unfolding L_def by blast
qed

lemma tiny_small: "tiny \<le> 1 / 2 ^ 100"
  unfolding tiny_def by (intro divide_left_mono power_increasing) simp_all

lemma abs_le_sqrt_sum:
  fixes x y z :: real
  shows "\<bar>x\<bar> \<le> sqrt (x * x + y * y + z * z)"
    and "\<bar>y\<bar> \<le> sqrt (x * x + y * y + z * z)"
    and "\<bar>z\<bar> \<le> sqrt (x * x + y * y + z * z)"
proof -
  have "sqrt (x * x) \<le> sqrt (x * x + y * y + z * z)" by (simp only: real_sqrt_le_iff) simp
  then show "\<bar>x\<bar> \<le> sqrt (x * x + y * y + z * z)" by simp
  have "sqrt (y * y) \<le> sqrt (x * x + y * y + z * z)" by (simp only: real_sqrt_le_iff) simp
  then show "\<bar>y\<bar> \<le> sqrt (x * x + y * y + z * z)" by simp
  have "sqrt (z * z) \<le> sqrt (x * x + y * y + z * z)" by (simp only: real_sqrt_le_iff) simp
  then show "\<bar>z\<bar> \<le> sqrt (x * x + y * y + z * z)" by simp
qed

lemma quotient_close:
  fixes x len L :: real
  assumes L: "0 < L" and x: "\<bar>x\<bar> \<le> L" and len: "\<bar>len - L\<bar> \<le> L / 2 ^ 50"
  shows "\<bar>x / len - x / L\<bar> \<le> (1 / 2 ^ 50 + 1 / 2 ^ 99)" and "\<bar>x / len\<bar> \<le> 2" and "0 < len"
proof -
  have lb: "L * (1 - 1 / 2 ^ 50) \<le> len" using len unfolding abs_le_iff by (simp add: algebra_simps)
  have pos: "0 < L * (1 - 1 / 2 ^ 50)" using L by simp
  show len0: "0 < len" using lb pos by linarith
  have "x / len - x / L = x * (L - len) / (len * L)"
    using L len0 by (simp add: field_simps)
  then have "\<bar>x / len - x / L\<bar> = \<bar>x\<bar> * \<bar>L - len\<bar> / (len * L)"
    using L len0 by (simp add: abs_mult)
  also have "\<dots> \<le> L * (L / 2 ^ 50) / (len * L)"
  proof (intro divide_right_mono mult_mono)
    show "\<bar>L - len\<bar> \<le> L / 2 ^ 50" using len by (simp add: abs_minus_commute)
  qed (use L len0 x in simp_all)
  also have "\<dots> = (L / 2 ^ 50) / len" using L by simp
  also have "\<dots> \<le> (L / 2 ^ 50) / (L * (1 - 1 / 2 ^ 50))"
    using L pos lb by (intro divide_left_mono) simp_all
  also have "\<dots> = (1 / 2 ^ 50) / (1 - 1 / 2 ^ 50)" using L by simp
  also have "\<dots> \<le> (1 / 2 ^ 50 + 1 / 2 ^ 99)" by simp
  finally show c: "\<bar>x / len - x / L\<bar> \<le> (1 / 2 ^ 50 + 1 / 2 ^ 99)" .
  have "\<bar>x / L\<bar> \<le> 1" using L x by simp
  with c have "\<bar>x / len\<bar> \<le> 1 + (1 / 2 ^ 50 + 1 / 2 ^ 99)" by linarith
  moreover have "1 + (1 / 2 ^ 50 + 1 / 2 ^ 99) \<le> (2::real)" by simp
  ultimately show "\<bar>x / len\<bar> \<le> 2" by linarith
qed

lemma rounded_quotient_close:
  fixes x len L :: real
  assumes L: "0 < L" and x: "\<bar>x\<bar> \<le> L" and len: "\<bar>len - L\<bar> \<le> L / 2 ^ 50"
  shows "div64 (Fin x) (Fin len) = Fin (rne (x / len))"
    and "\<bar>rne (x / len) - x / L\<bar> \<le> 1 / 2 ^ 49"
proof -
  note Q = quotient_close[OF assms]
  have "\<bar>x / len\<bar> \<le> 2 ^ 1023"
  proof -
    have "(2::real) \<le> 2 ^ 1023" by simp
    with Q(2) show ?thesis by linarith
  qed
  then show "div64 (Fin x) (Fin len) = Fin (rne (x / len))"
    using Q(3) by (simp add: round64_Fin)
  have "\<bar>x / L\<bar> \<le> 1" using L x by simp
  from rne_close[OF Q(1) this]
  have "\<bar>rne (x / len) - x / L\<bar> \<le> (1 / 2 ^ 50 + 1 / 2 ^ 99) + unit_roundoff * (1 + (1 / 2 ^ 50 + 1 / 2 ^ 99)) + tiny" .
  also have "\<dots> \<le> (1 / 2 ^ 50 + 1 / 2 ^ 99) + unit_roundoff * (1 + (1 / 2 ^ 50 + 1 / 2 ^ 99)) + 1 / 2 ^ 100"
    using tiny_small by simp
  also have "\<dots> \<le> 1 / 2 ^ 49" by (simp add: unit_roundoff_def)
  finally show "\<bar>rne (x / len) - x / L\<bar> \<le> 1 / 2 ^ 49" .
qed

text \<open>Accuracy of \<open>normalize\<close> in binary64 arithmetic.\<close>

lemma normalize_64_close:
  fixes x y z :: real
  defines "S \<equiv> x * x + y * y + z * z"
  assumes lo: "1 / 2 ^ 1000 \<le> S" and hi: "S \<le> 2 ^ 1000"
  shows "\<exists>n1 n2 n3.
           normalize_64 (Vector3_64 (Fin x) (Fin y) (Fin z)) = Vector3_64 (Fin n1) (Fin n2) (Fin n3) \<and>
           \<bar>n1 - x / sqrt S\<bar> \<le> 1 / 2 ^ 49 \<and>
           \<bar>n2 - y / sqrt S\<bar> \<le> 1 / 2 ^ 49 \<and>
           \<bar>n3 - z / sqrt S\<bar> \<le> 1 / 2 ^ 49"
proof -
  define L where "L = sqrt S"
  from length_64_close[of x y z] lo hi obtain len
    where len: "length_64 (Vector3_64 (Fin x) (Fin y) (Fin z)) = Fin len"
      and close: "\<bar>len - L\<bar> \<le> L / 2 ^ 50"
    unfolding S_def L_def by blast
  have S0: "0 < S"
  proof -
    have "(0::real) < 1 / 2 ^ 1000" by simp
    with lo show ?thesis by linarith
  qed
  have L0: "0 < L" using S0 by (simp add: L_def)
  have ab: "\<bar>x\<bar> \<le> L" "\<bar>y\<bar> \<le> L" "\<bar>z\<bar> \<le> L"
    unfolding L_def S_def by (rule abs_le_sqrt_sum)+
  note X = rounded_quotient_close[OF L0 ab(1) close]
  note Y = rounded_quotient_close[OF L0 ab(2) close]
  note Z = rounded_quotient_close[OF L0 ab(3) close]
  have len0: "0 < len" using quotient_close(3)[OF L0 ab(1) close] .
  then have ne: "\<not> eq64 (Fin len) (Fin 0)" by (simp add: eq64_def)
  have "normalize_64 (Vector3_64 (Fin x) (Fin y) (Fin z))
        = Vector3_64 (Fin (rne (x / len))) (Fin (rne (y / len))) (Fin (rne (z / len)))"
    unfolding normalize_64_def Let_def len using ne
    by (simp add: X(1) Y(1) Z(1) del: div64.simps)
  with X(2) Y(2) Z(2) show ?thesis unfolding L_def by blast
qed

lemma square_close:
  fixes n w e :: real
  assumes "\<bar>n - w\<bar> \<le> e" and "\<bar>w\<bar> \<le> 1"
  shows "\<bar>n * n - w * w\<bar> \<le> e * (2 + e)"
proof -
  have e0: "0 \<le> e" using assms(1) by linarith
  have "n * n - w * w = (n - w) * (n + w)" by (simp add: algebra_simps)
  then have "\<bar>n * n - w * w\<bar> = \<bar>n - w\<bar> * \<bar>n + w\<bar>" by (simp add: abs_mult)
  also have "\<dots> \<le> e * (2 + e)"
    using assms e0 by (intro mult_mono) linarith+
  finally show ?thesis .
qed

lemma unit_components:
  fixes x y z :: real
  assumes "0 < x * x + y * y + z * z"
  defines "L \<equiv> sqrt (x * x + y * y + z * z)"
  shows "(x / L) * (x / L) + (y / L) * (y / L) + (z / L) * (z / L) = 1"
    and "\<bar>x / L\<bar> \<le> 1" "\<bar>y / L\<bar> \<le> 1" "\<bar>z / L\<bar> \<le> 1"
proof -
  have L0: "0 < L" using assms(1) by (simp add: L_def)
  have LL: "L * L = x * x + y * y + z * z" using assms(1) by (simp add: L_def)
  have "(x / L) * (x / L) + (y / L) * (y / L) + (z / L) * (z / L)
        = (x * x + y * y + z * z) / (L * L)" by (simp add: add_divide_distrib)
  then show "(x / L) * (x / L) + (y / L) * (y / L) + (z / L) * (z / L) = 1"
    using L0 by (simp add: LL[symmetric])
  show "\<bar>x / L\<bar> \<le> 1" "\<bar>y / L\<bar> \<le> 1" "\<bar>z / L\<bar> \<le> 1"
    using L0 abs_le_sqrt_sum[where x = x and y = y and z = z]
    by (simp_all add: L_def)
qed

section \<open>Vector3.normalize\<close>

text \<open>
  C6, as amended. For every vector \<open>v\<close>, if \<open>v.length()\<close> is zero then \<open>v.normalize()\<close> is
  the zero vector. For every vector with finite components \<open>x\<close>, \<open>y\<close>, \<open>z\<close> whose exact
  sum of squares lies between \<open>2^-1000\<close> and \<open>2^1000\<close>, the components of
  \<open>v.normalize()\<close> are finite and its computed length is within \<open>2^-44\<close> of 1.
\<close>

theorem normalize_64_unit_in_range:
  "(eq64 (length_64 v) (Fin 0) \<longrightarrow> normalize_64 v = Vector3_64 (Fin 0) (Fin 0) (Fin 0)) \<and>
   (1 / 2 ^ 1000 \<le> x * x + y * y + z * z \<and> x * x + y * y + z * z \<le> 2 ^ 1000 \<longrightarrow>
      (\<exists>n1 n2 n3 l.
          normalize_64 (Vector3_64 (Fin x) (Fin y) (Fin z)) = Vector3_64 (Fin n1) (Fin n2) (Fin n3) \<and>
          length_64 (normalize_64 (Vector3_64 (Fin x) (Fin y) (Fin z))) = Fin l \<and>
          \<bar>l - 1\<bar> \<le> 1 / 2 ^ 44))"
proof (intro conjI impI)
  assume "eq64 (length_64 v) (Fin 0)"
  then show "normalize_64 v = Vector3_64 (Fin 0) (Fin 0) (Fin 0)"
    by (simp add: normalize_64_def)
next
  assume a: "1 / 2 ^ 1000 \<le> x * x + y * y + z * z \<and> x * x + y * y + z * z \<le> 2 ^ 1000"
  define S where "S = x * x + y * y + z * z"
  define L where "L = sqrt S"
  have "(0::real) < 1 / 2 ^ 1000" by simp
  with a have S0: "0 < S" unfolding S_def by linarith
  from normalize_64_close[of x y z] a obtain n1 n2 n3
    where n: "normalize_64 (Vector3_64 (Fin x) (Fin y) (Fin z)) = Vector3_64 (Fin n1) (Fin n2) (Fin n3)"
      and c: "\<bar>n1 - x / L\<bar> \<le> 1 / 2 ^ 49" "\<bar>n2 - y / L\<bar> \<le> 1 / 2 ^ 49"
             "\<bar>n3 - z / L\<bar> \<le> 1 / 2 ^ 49"
    unfolding L_def S_def by blast
  note U = unit_components[of x y z, folded S_def, folded L_def, OF S0]
  define T where "T = n1 * n1 + n2 * n2 + n3 * n3"
  have e: "(1 / 2 ^ 49) * (2 + 1 / 2 ^ 49) \<le> (1::real) / 2 ^ 47" by simp
  have q1: "\<bar>n1 * n1 - (x / L) * (x / L)\<bar> \<le> 1 / 2 ^ 47"
    using square_close[OF c(1) U(2)] e by linarith
  have q2: "\<bar>n2 * n2 - (y / L) * (y / L)\<bar> \<le> 1 / 2 ^ 47"
    using square_close[OF c(2) U(3)] e by linarith
  have q3: "\<bar>n3 * n3 - (z / L) * (z / L)\<bar> \<le> 1 / 2 ^ 47"
    using square_close[OF c(3) U(4)] e by linarith
  have "\<bar>T - 1\<bar> \<le> 3 / 2 ^ 47" using q1 q2 q3 U(1) unfolding T_def by linarith
  moreover have "(3::real) / 2 ^ 47 \<le> 1 / 2 ^ 45" by simp
  ultimately have T1: "\<bar>T - 1\<bar> \<le> 1 / 2 ^ 45" by linarith
  have Tlo: "1 / 2 ^ 1000 \<le> T"
  proof -
    have "(1::real) / 2 ^ 1000 \<le> 1 - 1 / 2 ^ 45" by simp
    with T1 show ?thesis by linarith
  qed
  have Thi: "T \<le> 2 ^ 1000"
  proof -
    have "(1::real) + 1 / 2 ^ 45 \<le> 2 ^ 1000" by simp
    with T1 show ?thesis by linarith
  qed
  from length_64_close[of n1 n2 n3] Tlo Thi obtain l
    where l: "length_64 (Vector3_64 (Fin n1) (Fin n2) (Fin n3)) = Fin l"
      and lc: "\<bar>l - sqrt T\<bar> \<le> sqrt T / 2 ^ 50"
    unfolding T_def by blast
  have st: "\<bar>sqrt T - 1\<bar> \<le> 1 / 2 ^ 45"
    using sqrt_rel_close[of 1 "1 / 2 ^ 45" T] T1 by simp
  have "\<bar>l - 1\<bar> \<le> 1 / 2 ^ 45 + (1 + 1 / 2 ^ 45) / 2 ^ 50"
  proof -
    have "sqrt T \<le> 1 + 1 / 2 ^ 45" using st by linarith
    then have "sqrt T / 2 ^ 50 \<le> (1 + 1 / 2 ^ 45) / 2 ^ 50"
      by (intro divide_right_mono) simp_all
    with lc st show ?thesis by linarith
  qed
  moreover have "(1::real) / 2 ^ 45 + (1 + 1 / 2 ^ 45) / 2 ^ 50 \<le> 1 / 2 ^ 44" by simp
  ultimately have "\<bar>l - 1\<bar> \<le> 1 / 2 ^ 44" by linarith
  with n l show "\<exists>n1 n2 n3 l.
          normalize_64 (Vector3_64 (Fin x) (Fin y) (Fin z)) = Vector3_64 (Fin n1) (Fin n2) (Fin n3) \<and>
          length_64 (normalize_64 (Vector3_64 (Fin x) (Fin y) (Fin z))) = Fin l \<and>
          \<bar>l - 1\<bar> \<le> 1 / 2 ^ 44"
    by auto
qed

theorem normalize_64_unit_in_range_witness:
  "eq64 (length_64 (Vector3_64 (Fin 0) (Fin 0) (Fin 0))) (Fin 0) \<and>
   normalize_64 (Vector3_64 (Fin 0) (Fin 0) (Fin 0)) = Vector3_64 (Fin 0) (Fin 0) (Fin 0) \<and>
   (1::real) / 2 ^ 1000 \<le> 3 * 3 + 0 * 0 + 4 * 4 \<and> (3::real) * 3 + 0 * 0 + 4 * 4 \<le> 2 ^ 1000 \<and>
   (\<exists>n1 n2 n3 l.
       normalize_64 (Vector3_64 (Fin 3) (Fin 0) (Fin 4)) = Vector3_64 (Fin n1) (Fin n2) (Fin n3) \<and>
       length_64 (normalize_64 (Vector3_64 (Fin 3) (Fin 0) (Fin 4))) = Fin l \<and>
       \<bar>l - 1\<bar> \<le> 1 / 2 ^ 44)"
proof -
  have z: "mul64 (Fin 0) (Fin 0) = Fin 0" by (simp add: round64_0)
  have a: "add64 (Fin 0) (Fin 0) = Fin 0" by (simp add: round64_0)
  have s: "sqrt64 (Fin 0) = Fin 0" by (simp add: round64_0)
  have len0: "length_64 (Vector3_64 (Fin 0) (Fin 0) (Fin 0)) = Fin 0"
    unfolding length_64_def Vector3_64.sel z a s ..
  have h0: "eq64 (length_64 (Vector3_64 (Fin 0) (Fin 0) (Fin 0))) (Fin 0)"
    by (simp add: len0 eq64_def)
  have h1: "(1::real) / 2 ^ 1000 \<le> 3 * 3 + 0 * 0 + 4 * 4 \<and> (3::real) * 3 + 0 * 0 + 4 * 4 \<le> 2 ^ 1000"
    by simp
  note T0 = normalize_64_unit_in_range[of "Vector3_64 (Fin 0) (Fin 0) (Fin 0)" 3 0 4, THEN conjunct1, THEN mp, OF h0]
  note T1 = normalize_64_unit_in_range[of "Vector3_64 (Fin 0) (Fin 0) (Fin 0)" 3 0 4, THEN conjunct2, THEN mp, OF h1]
  from h0 T0 h1 T1 show ?thesis by blast
qed

text \<open>
  C6, as stated, fails for finite vectors whose squares overflow. The vector
  \<open>(2^700, 0, 0)\<close> has the computed length \<open>Infinity\<close>, which is not zero, its
  \<open>normalize()\<close> is the zero vector, and the length of that is 0, not 1.
\<close>

theorem normalize_64_overflow_counterexample:
  "length_64 (Vector3_64 (Fin (2 ^ 700)) (Fin 0) (Fin 0)) = PInf \<and>
   \<not> eq64 (length_64 (Vector3_64 (Fin (2 ^ 700)) (Fin 0) (Fin 0))) (Fin 0) \<and>
   normalize_64 (Vector3_64 (Fin (2 ^ 700)) (Fin 0) (Fin 0)) = Vector3_64 (Fin 0) (Fin 0) (Fin 0) \<and>
   length_64 (normalize_64 (Vector3_64 (Fin (2 ^ 700)) (Fin 0) (Fin 0))) = Fin 0"
proof -
  have "(2::real) ^ 1024 \<le> 2 ^ 700 * 2 ^ 700" by simp
  then have m: "mul64 (Fin (2 ^ 700)) (Fin (2 ^ 700)) = PInf"
    by (simp add: round64_PInf)
  have z: "mul64 (Fin 0) (Fin 0) = Fin 0" by (simp add: round64_0)
  have a: "add64 (Fin 0) (Fin 0) = Fin 0" by (simp add: round64_0)
  have s: "sqrt64 (Fin 0) = Fin 0" by (simp add: round64_0)
  have len: "length_64 (Vector3_64 (Fin (2 ^ 700)) (Fin 0) (Fin 0)) = PInf"
    unfolding length_64_def Vector3_64.sel m z by simp
  have len0: "length_64 (Vector3_64 (Fin 0) (Fin 0) (Fin 0)) = Fin 0"
    unfolding length_64_def Vector3_64.sel z a s ..
  have n: "normalize_64 (Vector3_64 (Fin (2 ^ 700)) (Fin 0) (Fin 0)) = Vector3_64 (Fin 0) (Fin 0) (Fin 0)"
    unfolding normalize_64_def Let_def len by (simp add: eq64_def)
  show ?thesis unfolding n len0 len by (simp add: eq64_def)
qed

section \<open>Scene.trace: the nearest hit\<close>

lemma firstNearest_iff:
  "firstNearest ray objs i t \<longleftrightarrow>
     i < length objs \<and> intersect (objs ! i) ray = Some t \<and>
     (\<forall>j < length objs. \<forall>t'. intersect (objs ! j) ray = Some t' \<longrightarrow> t \<le> t') \<and>
     (\<forall>j < i. intersect (objs ! j) ray \<noteq> Some t)"
proof -
  have 1: "list_all (\<lambda>ob. case intersect ob ray of None \<Rightarrow> True | Some t' \<Rightarrow> t \<le> t') objs
           \<longleftrightarrow> (\<forall>j < length objs. \<forall>t'. intersect (objs ! j) ray = Some t' \<longrightarrow> t \<le> t')"
    by (auto simp: list_all_length split: option.splits)
  have 2: "list_all (\<lambda>ob. intersect ob ray \<noteq> Some t) (take i objs)
           \<longleftrightarrow> (\<forall>j < i. intersect (objs ! j) ray \<noteq> Some t)" if "i < length objs"
    using that by (simp add: list_all_length)
  show ?thesis unfolding firstNearest_def using 1 2 by blast
qed

lemma closestLoop_snoc:
  "closestLoop ray (objs @ [ob]) closest = closestStep ray (closestLoop ray objs closest) ob"
  by (induction objs arbitrary: closest) simp_all

lemma firstNearest_unique:
  assumes "firstNearest ray objs i t" and "firstNearest ray objs i' t'"
  shows "i = i' \<and> t = t'"
proof -
  from assms have "t \<le> t'" "t' \<le> t" unfolding firstNearest_iff by blast+
  then have tt: "t = t'" by simp
  have "\<not> i < i'" "\<not> i' < i" using assms unfolding firstNearest_iff tt by blast+
  with tt show ?thesis by simp
qed

lemma closestLoop_inv:
  "(closestLoop ray objs None = None \<and> (\<forall>ob \<in> set objs. intersect ob ray = None)) \<or>
   (\<exists>i t. closestLoop ray objs None = Some (t, objs ! i) \<and> firstNearest ray objs i t)"
proof (induction objs rule: rev_induct)
  case Nil
  then show ?case by simp
next
  case (snoc ob objs)
  show ?case
  proof (cases "intersect ob ray")
    case None
    from snoc show ?thesis
    proof
      assume "closestLoop ray objs None = None \<and> (\<forall>ob \<in> set objs. intersect ob ray = None)"
      then show ?thesis using None by (simp add: closestLoop_snoc closestStep_def)
    next
      assume "\<exists>i t. closestLoop ray objs None = Some (t, objs ! i) \<and> firstNearest ray objs i t"
      then obtain i t where cl: "closestLoop ray objs None = Some (t, objs ! i)"
        and fn: "firstNearest ray objs i t" by blast
      have "firstNearest ray (objs @ [ob]) i t"
        using fn None unfolding firstNearest_iff
        by (auto simp: nth_append less_Suc_eq)
      moreover have "closestLoop ray (objs @ [ob]) None = Some (t, (objs @ [ob]) ! i)"
        using cl fn None by (simp add: closestLoop_snoc closestStep_def firstNearest_iff nth_append)
      ultimately show ?thesis by blast
    qed
  next
    case (Some u)
    from snoc show ?thesis
    proof
      assume a: "closestLoop ray objs None = None \<and> (\<forall>ob \<in> set objs. intersect ob ray = None)"
      then have "closestLoop ray (objs @ [ob]) None = Some (u, (objs @ [ob]) ! length objs)"
        using Some by (simp add: closestLoop_snoc closestStep_def)
      moreover have "firstNearest ray (objs @ [ob]) (length objs) u"
        using a Some unfolding firstNearest_iff
        by (auto simp: nth_append less_Suc_eq)
      ultimately show ?thesis by blast
    next
      assume "\<exists>i t. closestLoop ray objs None = Some (t, objs ! i) \<and> firstNearest ray objs i t"
      then obtain i t where cl: "closestLoop ray objs None = Some (t, objs ! i)"
        and fn: "firstNearest ray objs i t" by blast
      show ?thesis
      proof (cases "u < t")
        case True
        then have "closestLoop ray (objs @ [ob]) None = Some (u, (objs @ [ob]) ! length objs)"
          using Some cl by (simp add: closestLoop_snoc closestStep_def)
        moreover have "firstNearest ray (objs @ [ob]) (length objs) u"
          using fn Some True unfolding firstNearest_iff
          by (fastforce simp: nth_append less_Suc_eq)
        ultimately show ?thesis by blast
      next
        case False
        then have "closestLoop ray (objs @ [ob]) None = Some (t, (objs @ [ob]) ! i)"
          using Some cl fn by (simp add: closestLoop_snoc closestStep_def firstNearest_iff nth_append)
        moreover have "firstNearest ray (objs @ [ob]) i t"
          using fn Some False unfolding firstNearest_iff
          by (auto simp: nth_append less_Suc_eq)
        ultimately show ?thesis by blast
      qed
    qed
  qed
qed

lemma closestLoop_None_iff:
  "closestLoop ray objs None = None \<longleftrightarrow> (\<forall>ob \<in> set objs. intersect ob ray = None)"
  using closestLoop_inv[of ray objs]
  by (auto simp: firstNearest_iff dest: nth_mem)

lemma closestLoop_firstNearest:
  assumes "firstNearest ray objs i t"
  shows "closestLoop ray objs None = Some (t, objs ! i)"
proof -
  have "\<not> (\<forall>ob \<in> set objs. intersect ob ray = None)"
    using assms unfolding firstNearest_iff by (metis nth_mem option.distinct(1))
  with closestLoop_inv[of ray objs] obtain i' t'
    where "closestLoop ray objs None = Some (t', objs ! i')" "firstNearest ray objs i' t'"
    by blast
  with firstNearest_unique[OF assms this(2)] show ?thesis by simp
qed

text \<open>
  C2. For every ray and every scene: when the object at index \<open>i\<close> returns the least
  distance \<open>t\<close> of the list and no object listed before it returns \<open>t\<close>, the scan of the
  object list ends with that object and \<open>t\<close>, and \<open>trace\<close> shades it; some such
  index exists as soon as one object is hit. When no object is hit, \<open>trace\<close> returns
  the background colour of the scene.
\<close>

theorem trace_nearest_first_wins:
  "(depth < maxDepth \<and> firstNearest ray (objects s) i t \<longrightarrow>
      closestLoop ray (objects s) None = Some (t, objects s ! i) \<and>
      trace s ray depth maxDepth = shade s ray t (objects s ! i)) \<and>
   ((\<forall>ob \<in> set (objects s). intersect ob ray = None) \<longrightarrow>
      closestLoop ray (objects s) None = None \<and>
      trace s ray depth maxDepth = backgroundColor s) \<and>
   ((\<exists>ob \<in> set (objects s). intersect ob ray \<noteq> None) \<longrightarrow> (\<exists>i t. firstNearest ray (objects s) i t))"
proof (intro conjI impI)
  assume a: "depth < maxDepth \<and> firstNearest ray (objects s) i t"
  then show c: "closestLoop ray (objects s) None = Some (t, objects s ! i)"
    by (simp add: closestLoop_firstNearest)
  with a show "trace s ray depth maxDepth = shade s ray t (objects s ! i)"
    by (simp add: trace_def)
next
  assume a: "\<forall>ob \<in> set (objects s). intersect ob ray = None"
  then show c: "closestLoop ray (objects s) None = None"
    by (simp add: closestLoop_None_iff)
  then show "trace s ray depth maxDepth = backgroundColor s"
    by (simp add: trace_def)
next
  assume "\<exists>ob \<in> set (objects s). intersect ob ray \<noteq> None"
  with closestLoop_inv[of ray "objects s"] show "\<exists>i t. firstNearest ray (objects s) i t"
    by auto
qed

theorem trace_nearest_first_wins_witness:
  "firstNearest \<lparr>origin = Vector3 0 0 3, direction = Vector3 0 0 (- 1)\<rparr>
      [Sphere (Vector3 0 0 0) (Vector3 1 0 0) 1, Sphere (Vector3 0 0 0) (Vector3 0 1 0) 1] 0 2 \<and>
   closestLoop \<lparr>origin = Vector3 0 0 3, direction = Vector3 0 0 (- 1)\<rparr>
      [Sphere (Vector3 0 0 0) (Vector3 1 0 0) 1, Sphere (Vector3 0 0 0) (Vector3 0 1 0) 1] None
     = Some (2, Sphere (Vector3 0 0 0) (Vector3 1 0 0) 1) \<and>
   trace \<lparr>objects = [Sphere (Vector3 0 0 0) (Vector3 1 0 0) 1, Sphere (Vector3 0 0 0) (Vector3 0 1 0) 1],
          lights = [], backgroundColor = Vector3 (1 / 10) (1 / 10) (2 / 10)\<rparr>
         \<lparr>origin = Vector3 0 0 3, direction = Vector3 0 0 (- 1)\<rparr> 0 3
     = shade \<lparr>objects = [Sphere (Vector3 0 0 0) (Vector3 1 0 0) 1, Sphere (Vector3 0 0 0) (Vector3 0 1 0) 1],
          lights = [], backgroundColor = Vector3 (1 / 10) (1 / 10) (2 / 10)\<rparr>
         \<lparr>origin = Vector3 0 0 3, direction = Vector3 0 0 (- 1)\<rparr> 2
         (Sphere (Vector3 0 0 0) (Vector3 1 0 0) 1) \<and>
   trace \<lparr>objects = [Sphere (Vector3 0 0 0) (Vector3 1 0 0) 1, Sphere (Vector3 0 0 0) (Vector3 0 1 0) 1],
          lights = [], backgroundColor = Vector3 (1 / 10) (1 / 10) (2 / 10)\<rparr>
         \<lparr>origin = Vector3 0 5 3, direction = Vector3 0 0 (- 1)\<rparr> 0 3
     = Vector3 (1 / 10) (1 / 10) (2 / 10)"
proof -
  let ?A = "Sphere (Vector3 0 0 0) (Vector3 1 0 0) 1"
  let ?B = "Sphere (Vector3 0 0 0) (Vector3 0 1 0) 1"
  let ?s = "\<lparr>objects = [?A, ?B], lights = [], backgroundColor = Vector3 (1 / 10) (1 / 10) (2 / 10)\<rparr>"
  let ?hit = "\<lparr>origin = Vector3 0 0 3, direction = Vector3 0 0 (- 1)\<rparr>"
  let ?miss = "\<lparr>origin = Vector3 0 5 3, direction = Vector3 0 0 (- 1)\<rparr>"
  have iA: "intersect ?A ?hit = Some 2" by (simp add: Let_def dot_def subtract_def)
  have iB: "intersect ?B ?hit = Some 2" by (simp add: Let_def dot_def subtract_def)
  have mA: "intersect ?A ?miss = None" by (simp add: Let_def dot_def subtract_def)
  have mB: "intersect ?B ?miss = None" by (simp add: Let_def dot_def subtract_def)
  have fn: "firstNearest ?hit (objects ?s) 0 2"
    unfolding firstNearest_iff using iA iB by (simp add: less_Suc_eq nth_Cons')
  have none: "\<forall>ob \<in> set (objects ?s). intersect ob ?miss = None"
    using mA mB by simp
  have d: "(0::real) < 3" by simp
  from trace_nearest_first_wins[of 0 3 ?hit ?s 0 2] trace_nearest_first_wins[of 0 3 ?miss ?s 0 2]
    fn none d
  show ?thesis by simp
qed

section \<open>Scene.trace: shadow rays and shading\<close>

lemma inShadowLoop_iff:
  "inShadowLoop shadowRay light p objs \<longleftrightarrow>
     (\<exists>obj \<in> set objs. \<exists>shadowT. intersect obj shadowRay = Some shadowT \<and>
          shadowT < distanceTo (position_light light) p)"
  by (induction objs) (auto split: option.splits)

lemma lightStep_cases:
  "lightStep s ob p n acc light =
     add (if (\<exists>obj \<in> set (objects s). \<exists>shadowT.
               intersect obj (new_Ray (add p (multiply n (1 / 1000)))
                                (normalize_vec (subtract (position_light light) p))) = Some shadowT \<and>
               shadowT < distanceTo (position_light light) p)
          then acc
          else add acc (multiply (color ob)
                 (max 0 (dot n (normalize_vec (subtract (position_light light) p))) * intensity light)))
         (multiply (color ob) (2 / 10))"
  unfolding Let_def lightStep_def diffuseColor_def inShadowLoop_iff
  by auto

lemma lightLoop_foldl:
  "lightLoop s ob p n ls acc = foldl (lightStep s ob p n) acc ls"
  by (induction ls arbitrary: acc) simp_all

lemma closestLoop_Some_mem:
  assumes "closestLoop ray objs None = Some (t, ob)"
  shows "ob \<in> set objs"
proof -
  from closestLoop_inv[of ray objs] assms obtain i t'
    where "closestLoop ray objs None = Some (t', objs ! i)" "firstNearest ray objs i t'"
    by auto
  with assms show ?thesis by (auto simp: firstNearest_iff)
qed

text \<open>
  C3. For every hit of \<open>trace\<close>, with \<open>p\<close> the hit point and \<open>n\<close> the normal of the hit
  object there, and for every light: the shadow ray starts at \<open>p + n * 0.001\<close> and points
  along the unit direction from \<open>p\<close> to the light; the shadow loop finds the point in
  shadow exactly when some object of the scene returns a distance less than the
  distance from the light to \<open>p\<close>, and the hit object is one of the objects tested.
  The colour returned by \<open>trace\<close> is the clamped result of running over the lights of
  the scene in order and adding, for each light, the diffuse colour
  \<open>color * (max 0 (n\<cdot>lightDirection) * intensity)\<close> only when the point is not in
  shadow of that light, and then the ambient colour.
\<close>

theorem trace_shadow_ray_and_diffuse:
  "depth < maxDepth \<and> closestLoop ray (objects s) None = Some (t, ob) \<longrightarrow>
     (let p = pointAt ray t;
          n = normalAt ob p;
          lightDirection = (\<lambda>light. normalize_vec (subtract (position_light light) p));
          shadowRay = (\<lambda>light. new_Ray (add p (multiply n (1 / 1000))) (lightDirection light));
          inShadow = (\<lambda>light. \<exists>obj \<in> set (objects s). \<exists>shadowT.
                        intersect obj (shadowRay light) = Some shadowT \<and>
                        shadowT < distanceTo (position_light light) p);
          contribution = (\<lambda>acc light.
             add (if inShadow light then acc
                  else add acc (multiply (color ob)
                         (max 0 (dot n (lightDirection light)) * intensity light)))
                 (multiply (color ob) (2 / 10)))
      in ob \<in> set (objects s) \<and>
         (\<forall>light. origin (shadowRay light) = add p (multiply n (1 / 1000)) \<and>
                  direction (shadowRay light) = lightDirection light \<and>
                  (inShadowLoop (shadowRay light) light p (objects s) \<longleftrightarrow> inShadow light)) \<and>
         lightLoop s ob p n (lights s) (Vector3 0 0 0)
           = foldl contribution (Vector3 0 0 0) (lights s) \<and>
         trace s ray depth maxDepth = clampColor (foldl contribution (Vector3 0 0 0) (lights s)))"
proof (intro impI)
  assume a: "depth < maxDepth \<and> closestLoop ray (objects s) None = Some (t, ob)"
  define p where "p = pointAt ray t"
  define n where "n = normalAt ob p"
  have mem: "ob \<in> set (objects s)" using a by (auto dest: closestLoop_Some_mem)
  have step: "lightStep s ob p n = (\<lambda>acc light.
             add (if (\<exists>obj \<in> set (objects s). \<exists>shadowT.
                        intersect obj (new_Ray (add p (multiply n (1 / 1000)))
                           (normalize_vec (subtract (position_light light) p))) = Some shadowT \<and>
                        shadowT < distanceTo (position_light light) p) then acc
                  else add acc (multiply (color ob)
                         (max 0 (dot n (normalize_vec (subtract (position_light light) p))) * intensity light)))
                 (multiply (color ob) (2 / 10)))"
    by (intro ext) (rule lightStep_cases)
  have loop: "lightLoop s ob p n (lights s) (Vector3 0 0 0)
              = foldl (lightStep s ob p n) (Vector3 0 0 0) (lights s)"
    by (rule lightLoop_foldl)
  have tr: "trace s ray depth maxDepth = clampColor (lightLoop s ob p n (lights s) (Vector3 0 0 0))"
    using a by (simp add: trace_def shade_def Let_def p_def n_def del: lightLoop.simps)
  show "let p = pointAt ray t;
          n = normalAt ob p;
          lightDirection = (\<lambda>light. normalize_vec (subtract (position_light light) p));
          shadowRay = (\<lambda>light. new_Ray (add p (multiply n (1 / 1000))) (lightDirection light));
          inShadow = (\<lambda>light. \<exists>obj \<in> set (objects s). \<exists>shadowT.
                        intersect obj (shadowRay light) = Some shadowT \<and>
                        shadowT < distanceTo (position_light light) p);
          contribution = (\<lambda>acc light.
             add (if inShadow light then acc
                  else add acc (multiply (color ob)
                         (max 0 (dot n (lightDirection light)) * intensity light)))
                 (multiply (color ob) (2 / 10)))
      in ob \<in> set (objects s) \<and>
         (\<forall>light. origin (shadowRay light) = add p (multiply n (1 / 1000)) \<and>
                  direction (shadowRay light) = lightDirection light \<and>
                  (inShadowLoop (shadowRay light) light p (objects s) \<longleftrightarrow> inShadow light)) \<and>
         lightLoop s ob p n (lights s) (Vector3 0 0 0)
           = foldl contribution (Vector3 0 0 0) (lights s) \<and>
         trace s ray depth maxDepth = clampColor (foldl contribution (Vector3 0 0 0) (lights s))"
    unfolding Let_def p_def[symmetric] n_def[symmetric] tr loop step inShadowLoop_iff
    using mem by (simp add: new_Ray_def normalize_vec_idem)
qed

theorem trace_shadow_ray_and_diffuse_witness:
  "closestLoop \<lparr>origin = Vector3 0 (1 / 2) 0, direction = Vector3 0 (- 1) 0\<rparr>
     [Plane (Vector3 0 0 0) (Vector3 1 (1 / 2) (1 / 4)) (Vector3 0 1 0),
      Plane (Vector3 0 (3 / 2) 0) (Vector3 1 1 1) (Vector3 0 1 0)] None
     = Some (1 / 2, Plane (Vector3 0 0 0) (Vector3 1 (1 / 2) (1 / 4)) (Vector3 0 1 0)) \<and>
   trace \<lparr>objects = [Plane (Vector3 0 0 0) (Vector3 1 (1 / 2) (1 / 4)) (Vector3 0 1 0),
                     Plane (Vector3 0 (3 / 2) 0) (Vector3 1 1 1) (Vector3 0 1 0)],
          lights = [\<lparr>position_light = Vector3 0 2 0, intensity = 1 / 2\<rparr>,
                    \<lparr>position_light = Vector3 0 1 0, intensity = 1 / 2\<rparr>],
          backgroundColor = Vector3 0 0 0\<rparr>
         \<lparr>origin = Vector3 0 (1 / 2) 0, direction = Vector3 0 (- 1) 0\<rparr> 0 3
     = Vector3 (9 / 10) (9 / 20) (9 / 40)"
proof -
  let ?ob = "Plane (Vector3 0 0 0) (Vector3 1 (1 / 2) (1 / 4)) (Vector3 0 1 0)"
  let ?occ = "Plane (Vector3 0 (3 / 2) 0) (Vector3 1 1 1) (Vector3 0 1 0)"
  let ?far = "\<lparr>position_light = Vector3 0 2 0, intensity = 1 / 2\<rparr>"
  let ?near = "\<lparr>position_light = Vector3 0 1 0, intensity = 1 / 2\<rparr>"
  let ?s = "\<lparr>objects = [?ob, ?occ], lights = [?far, ?near], backgroundColor = Vector3 0 0 0\<rparr>"
  let ?ray = "\<lparr>origin = Vector3 0 (1 / 2) 0, direction = Vector3 0 (- 1) 0\<rparr>"
  let ?sr = "\<lparr>origin = Vector3 0 (1 / 1000) 0, direction = Vector3 0 1 0\<rparr>"
  have r1: "intersect ?ob ?ray = Some (1 / 2)" by (simp add: Let_def dot_def subtract_def)
  have r2: "intersect ?occ ?ray = None" by (simp add: Let_def dot_def subtract_def)
  have cl: "closestLoop ?ray (objects ?s) None = Some (1 / 2, ?ob)"
    by (simp add: closestStep_def r1 r2 del: intersect.simps)
  have pt: "pointAt ?ray (1 / 2) = Vector3 0 0 0"
    by (simp add: pointAt_def add_def multiply_def)
  have nn: "normalAt ?ob (Vector3 0 0 0) = Vector3 0 1 0" by simp
  have ld1: "normalize_vec (subtract (position_light ?far) (Vector3 0 0 0)) = Vector3 0 1 0"
    by (simp add: normalize_vec_def subtract_def length_vec_def Let_def)
  have ld2: "normalize_vec (subtract (position_light ?near) (Vector3 0 0 0)) = Vector3 0 1 0"
    by (simp add: normalize_vec_def subtract_def length_vec_def Let_def)
  have sr: "new_Ray (add (Vector3 0 0 0) (multiply (Vector3 0 1 0) (1 / 1000))) (Vector3 0 1 0) = ?sr"
    by (simp add: new_Ray_def normalize_vec_def length_vec_def add_def multiply_def)
  have d1: "distanceTo (position_light ?far) (Vector3 0 0 0) = 2" by (simp add: distanceTo_def)
  have d2: "distanceTo (position_light ?near) (Vector3 0 0 0) = 1" by (simp add: distanceTo_def)
  have i1: "intersect ?ob ?sr = None" by (simp add: Let_def dot_def subtract_def)
  have i2: "intersect ?occ ?sr = Some (1499 / 1000)" by (simp add: Let_def dot_def subtract_def)
  have "\<exists>shadowT. intersect ?occ ?sr = Some shadowT \<and> shadowT < 2"
    unfolding i2 by (intro exI[of _ "1499 / 1000"]) simp
  then have "\<exists>obj \<in> set (objects ?s). \<exists>shadowT. intersect obj ?sr = Some shadowT \<and> shadowT < 2"
    by (intro bexI[of _ ?occ]) simp_all
  then have sh1: "(\<exists>obj \<in> set (objects ?s). \<exists>shadowT. intersect obj ?sr = Some shadowT \<and> shadowT < 2) = True"
    by (rule eqTrueI)
  have "\<not> (\<exists>shadowT. intersect obj ?sr = Some shadowT \<and> shadowT < 1)" if "obj \<in> set (objects ?s)" for obj
  proof -
    from that have "obj = ?ob \<or> obj = ?occ" by simp
    then show ?thesis unfolding i1 i2 by (auto simp: i1 i2 simp del: intersect.simps)
  qed
  then have sh2: "(\<exists>obj \<in> set (objects ?s). \<exists>shadowT. intersect obj ?sr = Some shadowT \<and> shadowT < 1) = False"
    by blast
  have h: "(0::real) < 3 \<and> closestLoop ?ray (objects ?s) None = Some (1 / 2, ?ob)"
    using cl by simp
  note T = trace_shadow_ray_and_diffuse[of 0 3 ?ray ?s "1 / 2" ?ob, THEN mp, OF h]
  have lights: "lights ?s = [?far, ?near]" by simp
  have "trace ?s ?ray 0 3 = Vector3 (9 / 10) (9 / 20) (9 / 40)"
    using T[unfolded Let_def pt nn, THEN conjunct2, THEN conjunct2, THEN conjunct2]
    unfolding lights foldl.simps ld1 ld2 sr d1 d2 sh1 sh2
    by (simp add: add_def multiply_def dot_def clampColor_def)
  with cl show ?thesis by (simp del: closestLoop.simps)
qed

lemma lightLoop_split:
  "lightLoop s ob p n ls acc =
     add (add acc (diffuseTotal s ob p n ls)) (multiply (color ob) (real (length ls) * (2 / 10)))"
proof (induction ls arbitrary: acc)
  case Nil
  then show ?case by (cases acc) (simp add: add_def multiply_def)
next
  case (Cons l ls)
  show ?case
    by (cases "diffuseColor s ob p n l")
       (simp_all add: Cons.IH lightStep_def add_def multiply_def algebra_simps)
qed

lemma diffuseTotal_all_shadowed:
  "(\<forall>l \<in> set ls. diffuseColor s ob p n l = None) \<Longrightarrow> diffuseTotal s ob p n ls = Vector3 0 0 0"
  by (induction ls) (simp_all add: add_def)

text \<open>
  C4. For every hit in a scene with \<open>n\<close> lights, the colour accumulated by the light
  loop before clamping is the sum of the diffuse contributions of the lights that are
  not shadowed plus \<open>color * (n * 0.2)\<close>: the ambient colour is added once per light,
  shadowed or not. When every light is shadowed the accumulated colour is exactly
  \<open>color * (n * 0.2)\<close>.
\<close>

theorem ambient_once_per_light:
  "lightLoop s ob p n ls (Vector3 0 0 0) =
     add (diffuseTotal s ob p n ls) (multiply (color ob) (real (length ls) * (2 / 10))) \<and>
   ((\<forall>l \<in> set ls. diffuseColor s ob p n l = None) \<longrightarrow>
      lightLoop s ob p n ls (Vector3 0 0 0) = multiply (color ob) (real (length ls) * (2 / 10))) \<and>
   (depth < maxDepth \<and> closestLoop ray (objects s) None = Some (t, ob) \<longrightarrow>
      trace s ray depth maxDepth =
        clampColor (add (diffuseTotal s ob (pointAt ray t) (normalAt ob (pointAt ray t)) (lights s))
                        (multiply (color ob) (real (length (lights s)) * (2 / 10)))))"
proof -
  have z: "add (Vector3 0 0 0) v = v" for v by (cases v) (simp add: add_def)
  have 1: "lightLoop s ob p n ls (Vector3 0 0 0) =
     add (diffuseTotal s ob p n ls) (multiply (color ob) (real (length ls) * (2 / 10)))" for p n ls
    by (simp only: lightLoop_split z)
  have 2: "lightLoop s ob p n ls (Vector3 0 0 0) = multiply (color ob) (real (length ls) * (2 / 10))"
    if "\<forall>l \<in> set ls. diffuseColor s ob p n l = None"
    using diffuseTotal_all_shadowed[OF that] by (simp only: 1 z)
  have 3: "trace s ray depth maxDepth =
        clampColor (add (diffuseTotal s ob (pointAt ray t) (normalAt ob (pointAt ray t)) (lights s))
                        (multiply (color ob) (real (length (lights s)) * (2 / 10))))"
    if "depth < maxDepth \<and> closestLoop ray (objects s) None = Some (t, ob)"
    using that by (simp add: trace_def shade_def Let_def 1 del: lightLoop.simps)
  from 1 2 3 show ?thesis by blast
qed

theorem ambient_once_per_light_witness:
  "lightLoop \<lparr>objects = [Plane (Vector3 0 0 0) (Vector3 1 (1 / 2) (1 / 4)) (Vector3 0 1 0),
                         Plane (Vector3 0 1 0) (Vector3 1 1 1) (Vector3 0 1 0)],
              lights = [\<lparr>position_light = Vector3 0 2 0, intensity = 1 / 2\<rparr>,
                        \<lparr>position_light = Vector3 0 2 0, intensity = 3\<rparr>],
              backgroundColor = Vector3 0 0 0\<rparr>
      (Plane (Vector3 0 0 0) (Vector3 1 (1 / 2) (1 / 4)) (Vector3 0 1 0))
      (Vector3 0 0 0) (Vector3 0 1 0)
      [\<lparr>position_light = Vector3 0 2 0, intensity = 1 / 2\<rparr>,
       \<lparr>position_light = Vector3 0 2 0, intensity = 3\<rparr>] (Vector3 0 0 0)
     = Vector3 (2 / 5) (1 / 5) (1 / 10) \<and>
   trace \<lparr>objects = [Plane (Vector3 0 0 0) (Vector3 1 (1 / 2) (1 / 4)) (Vector3 0 1 0),
                     Plane (Vector3 0 1 0) (Vector3 1 1 1) (Vector3 0 1 0)],
          lights = [\<lparr>position_light = Vector3 0 2 0, intensity = 1 / 2\<rparr>,
                    \<lparr>position_light = Vector3 0 2 0, intensity = 3\<rparr>],
          backgroundColor = Vector3 0 0 0\<rparr>
         \<lparr>origin = Vector3 0 (1 / 2) 0, direction = Vector3 0 (- 1) 0\<rparr> 0 3
     = Vector3 (2 / 5) (1 / 5) (1 / 10)"
proof -
  let ?ob = "Plane (Vector3 0 0 0) (Vector3 1 (1 / 2) (1 / 4)) (Vector3 0 1 0)"
  let ?occ = "Plane (Vector3 0 1 0) (Vector3 1 1 1) (Vector3 0 1 0)"
  let ?l1 = "\<lparr>position_light = Vector3 0 2 0, intensity = 1 / 2\<rparr>"
  let ?l2 = "\<lparr>position_light = Vector3 0 2 0, intensity = 3\<rparr>"
  let ?s = "\<lparr>objects = [?ob, ?occ], lights = [?l1, ?l2], backgroundColor = Vector3 0 0 0\<rparr>"
  let ?ray = "\<lparr>origin = Vector3 0 (1 / 2) 0, direction = Vector3 0 (- 1) 0\<rparr>"
  let ?sr = "\<lparr>origin = Vector3 0 (1 / 1000) 0, direction = Vector3 0 1 0\<rparr>"
  have n1: "normalize_vec (Vector3 0 1 0) = Vector3 0 1 0"
    by (simp add: normalize_vec_def length_vec_def)
  have n2: "normalize_vec (Vector3 0 2 0) = Vector3 0 1 0"
    by (simp add: normalize_vec_def length_vec_def)
  have i1: "intersect ?ob ?sr = None" by (simp add: Let_def dot_def subtract_def)
  have i2: "intersect ?occ ?sr = Some (999 / 1000)" by (simp add: Let_def dot_def subtract_def)
  have dc: "diffuseColor sc ?ob (Vector3 0 0 0) (Vector3 0 1 0) l = None"
    if "objects sc = [?ob, ?occ]" "position_light l = Vector3 0 2 0" for sc l
    using that
    by (simp add: diffuseColor_def Let_def subtract_def n2 n1 new_Ray_def add_def multiply_def
          i1 i2 distanceTo_def del: intersect.simps)
  have sh: "\<forall>l \<in> set [?l1, ?l2]. diffuseColor ?s ?ob (Vector3 0 0 0) (Vector3 0 1 0) l = None"
    by (simp add: dc)
  have r1: "intersect ?ob ?ray = Some (1 / 2)" by (simp add: Let_def dot_def subtract_def)
  have r2: "intersect ?occ ?ray = None" by (simp add: Let_def dot_def subtract_def)
  have cl: "closestLoop ?ray (objects ?s) None = Some (1 / 2, ?ob)"
    by (simp add: closestStep_def r1 r2 del: intersect.simps)
  have pt: "pointAt ?ray (1 / 2) = Vector3 0 0 0"
    by (simp add: pointAt_def add_def multiply_def)
  have dt: "diffuseTotal ?s ?ob (Vector3 0 0 0) (Vector3 0 1 0) [?l1, ?l2] = Vector3 0 0 0"
    by (simp add: dc add_def)
  have d: "(0::real) < 3" by simp
  note T = ambient_once_per_light[of ?s ?ob "Vector3 0 0 0" "Vector3 0 1 0" "[?l1, ?l2]" 0 3 ?ray "1 / 2"]
  have A: "lightLoop ?s ?ob (Vector3 0 0 0) (Vector3 0 1 0) [?l1, ?l2] (Vector3 0 0 0)
           = Vector3 (2 / 5) (1 / 5) (1 / 10)"
    using T[THEN conjunct2, THEN conjunct1] sh
    by (simp add: multiply_def del: lightLoop.simps diffuseTotal.simps)
  have B: "trace ?s ?ray 0 3 = Vector3 (2 / 5) (1 / 5) (1 / 10)"
    using T[THEN conjunct2, THEN conjunct2] cl d
    by (simp add: pt dt add_def multiply_def clampColor_def del: lightLoop.simps diffuseTotal.simps)
  from A B show ?thesis by (simp del: lightLoop.simps)
qed

section \<open>Scene.trace: the background colour\<close>

text \<open>
  C10. When \<open>trace\<close> is entered with \<open>depth \<ge> maxDepth\<close>, or when no object of the
  scene intersects the ray, it returns the background colour of the scene as stored,
  without clamping; on the hit path every channel of the result lies in \<open>[0, 1]\<close>.
\<close>

theorem background_unclamped:
  "((maxDepth \<le> depth \<or> (\<forall>ob \<in> set (objects s). intersect ob ray = None)) \<longrightarrow>
      trace s ray depth maxDepth = backgroundColor s) \<and>
   (depth < maxDepth \<and> (\<exists>ob \<in> set (objects s). intersect ob ray \<noteq> None) \<longrightarrow>
      (let c = trace s ray depth maxDepth
       in 0 \<le> vx c \<and> vx c \<le> 1 \<and> 0 \<le> vy c \<and> vy c \<le> 1 \<and> 0 \<le> vz c \<and> vz c \<le> 1))"
proof -
  have bg: "trace s ray depth maxDepth = backgroundColor s"
    if "maxDepth \<le> depth \<or> (\<forall>ob \<in> set (objects s). intersect ob ray = None)"
  proof (cases "maxDepth \<le> depth")
    case True
    then show ?thesis by (simp add: trace_def)
  next
    case False
    with that have "closestLoop ray (objects s) None = None"
      by (simp add: closestLoop_None_iff)
    then show ?thesis by (simp add: trace_def)
  qed
  have hit: "let c = trace s ray depth maxDepth
       in 0 \<le> vx c \<and> vx c \<le> 1 \<and> 0 \<le> vy c \<and> vy c \<le> 1 \<and> 0 \<le> vz c \<and> vz c \<le> 1"
    if "depth < maxDepth \<and> (\<exists>ob \<in> set (objects s). intersect ob ray \<noteq> None)"
  proof -
    from that have "closestLoop ray (objects s) None \<noteq> None"
      by (simp add: closestLoop_None_iff)
    then obtain t ob where "closestLoop ray (objects s) None = Some (t, ob)" by auto
    with that show ?thesis
      by (simp add: trace_def shade_def Let_def clampColor_def del: lightLoop.simps)
  qed
  from bg hit show ?thesis by blast
qed

theorem background_unclamped_witness:
  "trace \<lparr>objects = [], lights = [], backgroundColor = Vector3 2 (- 1) 5\<rparr>
         \<lparr>origin = Vector3 0 2 10, direction = Vector3 0 0 (- 1)\<rparr> 0 3 = Vector3 2 (- 1) 5 \<and>
   trace \<lparr>objects = [Plane (Vector3 0 0 0) (Vector3 1 1 1) (Vector3 0 0 1)], lights = [],
          backgroundColor = Vector3 2 (- 1) 5\<rparr>
         \<lparr>origin = Vector3 0 2 10, direction = Vector3 0 0 (- 1)\<rparr> 3 3 = Vector3 2 (- 1) 5 \<and>
   vx (trace \<lparr>objects = [Plane (Vector3 0 0 0) (Vector3 1 1 1) (Vector3 0 0 1)], lights = [],
          backgroundColor = Vector3 2 (- 1) 5\<rparr>
         \<lparr>origin = Vector3 0 2 10, direction = Vector3 0 0 (- 1)\<rparr> 0 3) \<le> 1"
  using
    background_unclamped[of 3 0 "\<lparr>objects = [], lights = [], backgroundColor = Vector3 2 (- 1) 5\<rparr>"
       "\<lparr>origin = Vector3 0 2 10, direction = Vector3 0 0 (- 1)\<rparr>"]
    background_unclamped[of 3 3 "\<lparr>objects = [Plane (Vector3 0 0 0) (Vector3 1 1 1) (Vector3 0 0 1)], lights = [],
          backgroundColor = Vector3 2 (- 1) 5\<rparr>"
       "\<lparr>origin = Vector3 0 2 10, direction = Vector3 0 0 (- 1)\<rparr>"]
    background_unclamped[of 3 0 "\<lparr>objects = [Plane (Vector3 0 0 0) (Vector3 1 1 1) (Vector3 0 0 1)], lights = [],
          backgroundColor = Vector3 2 (- 1) 5\<rparr>"
       "\<lparr>origin = Vector3 0 2 10, direction = Vector3 0 0 (- 1)\<rparr>"]
  by (simp add: Let_def dot_def subtract_def)

section \<open>A ray aimed at the centre of a sphere\<close>

subsection \<open>Error bounds for the operations of \<open>Sphere.intersect\<close>\<close>

















subsection \<open>The head-on ray\<close>










subsection \<open>An origin within \<open>0.001\<close> of the surface\<close>





section \<open>Renderer.render\<close>

lemma store_clamped_255: "store_clamped 255 = 255"
  by (simp add: store_clamped_def)

lemma length_pixelBytes: "length (pixelBytes s W H x y) = 4"
  by (simp add: pixelBytes_def Let_def)

lemma update4_append:
  assumes "length pre = i" and "length old = 4"
  shows "(pre @ old @ post)[i := a, i + 1 := b, i + 2 := c, i + 3 := d] = pre @ [a, b, c, d] @ post"
proof -
  from assms(2) obtain o1 o2 o3 o4 where "old = [o1, o2, o3, o4]"
    by (auto simp: length_Suc_conv numeral_eq_Suc)
  with assms(1) show ?thesis by (simp add: list_update_append)
qed

lemma renderPixel_append:
  assumes "length pre = (y * W + x) * 4" and "length old = 4"
  shows "renderPixel s W H y x (pre @ old @ post) = pre @ pixelBytes s W H x y @ post"
  using update4_append[OF assms]
  by (simp add: renderPixel_def pixelBytes_def pixelColor_def Let_def store_clamped_255
        new_Ray_def normalize_vec_idem)

lemma renderCols_append:
  assumes "x \<le> W" and "length pre = (y * W + x) * 4" and "length old = (W - x) * 4"
  shows "renderCols s W H y x (pre @ old @ post)
         = pre @ concat (map (\<lambda>x'. pixelBytes s W H x' y) [x..<W]) @ post"
  using assms
proof (induction "W - x" arbitrary: x pre old)
  case 0
  then show ?case by simp
next
  case (Suc k)
  then have xW: "x < W" by simp
  define o1 where "o1 = take 4 old"
  define o2 where "o2 = drop 4 old"
  have old: "old = o1 @ o2" by (simp add: o1_def o2_def)
  have lo1: "length o1 = 4" using Suc.prems(3) xW by (simp add: o1_def)
  have lo2: "length o2 = (W - Suc x) * 4" using Suc.prems(3) xW by (simp add: o2_def algebra_simps)
  have step: "renderPixel s W H y x (pre @ o1 @ (o2 @ post)) = pre @ pixelBytes s W H x y @ (o2 @ post)"
    by (rule renderPixel_append[OF Suc.prems(2) lo1])
  have k: "k = W - Suc x" using Suc.hyps(2) by simp
  have lpre: "length (pre @ pixelBytes s W H x y) = (y * W + Suc x) * 4"
    using Suc.prems(2) by (simp add: length_pixelBytes)
  have "renderCols s W H y (Suc x) ((pre @ pixelBytes s W H x y) @ o2 @ post)
        = (pre @ pixelBytes s W H x y) @ concat (map (\<lambda>x'. pixelBytes s W H x' y) [Suc x..<W]) @ post"
    using Suc.hyps(1)[OF k _ lpre lo2] xW by simp
  then show ?case
    using xW step by (simp add: old upt_conv_Cons del: upt_Suc)
qed

lemma length_rowBytes: "length (rowBytes s W H y) = W * 4"
  by (simp add: rowBytes_def length_concat comp_def length_pixelBytes sum_list_triv)

lemma renderRows_append:
  assumes "y \<le> H" and "length pre = y * W * 4" and "length old = (H - y) * W * 4"
  shows "renderRows s W H y (pre @ old) = pre @ concat (map (rowBytes s W H) [y..<H])"
  using assms
proof (induction "H - y" arbitrary: y pre old)
  case 0
  then show ?case by simp
next
  case (Suc k)
  then have yH: "y < H" by simp
  define o1 where "o1 = take (W * 4) old"
  define o2 where "o2 = drop (W * 4) old"
  have old: "old = o1 @ o2" by (simp add: o1_def o2_def)
  have HY: "H - y = Suc (H - Suc y)" using yH by simp
  have lo1: "length o1 = (W - 0) * 4" using Suc.prems(3) by (simp add: o1_def HY)
  have lo2: "length o2 = (H - Suc y) * W * 4" using Suc.prems(3) by (simp add: o2_def HY)
  have lpre0: "length pre = (y * W + 0) * 4" using Suc.prems(2) by simp
  have step: "renderCols s W H y 0 (pre @ o1 @ o2) = pre @ rowBytes s W H y @ o2"
    using renderCols_append[OF _ lpre0 lo1, of s H o2] by (simp add: rowBytes_def)
  have k: "k = H - Suc y" using Suc.hyps(2) by simp
  have lpre: "length (pre @ rowBytes s W H y) = Suc y * W * 4"
    using Suc.prems(2) by (simp add: length_rowBytes)
  have "renderRows s W H (Suc y) ((pre @ rowBytes s W H y) @ o2)
        = (pre @ rowBytes s W H y) @ concat (map (rowBytes s W H) [Suc y..<H])"
    using Suc.hyps(1)[OF k _ lpre lo2] yH by simp
  then show ?case
    using yH step by (simp add: old upt_conv_Cons del: upt_Suc)
qed

lemma renderRows_frame:
  assumes "length data = W * H * 4"
  shows "renderRows s W H 0 data = frameBytes s W H"
  using renderRows_append[of 0 H "[]" W data s] assms
  by (simp add: frameBytes_def mult.commute)

lemma nth_concat_blocks:
  assumes "\<forall>xs \<in> set xss. length xs = m" and "i < length xss" and "k < m"
  shows "concat xss ! (i * m + k) = xss ! i ! k"
  using assms
proof (induction xss arbitrary: i)
  case Nil
  then show ?case by simp
next
  case (Cons xs xss)
  show ?case
  proof (cases i)
    case 0
    with Cons.prems show ?thesis by (simp add: nth_append)
  next
    case (Suc j)
    with Cons.prems have "concat xss ! (j * m + k) = xss ! j ! k"
      by (intro Cons.IH) simp_all
    with Suc Cons.prems show ?thesis by (simp add: nth_append)
  qed
qed

lemma frameBytes_nth:
  assumes "x < W" and "y < H" and "k < 4"
  shows "frameBytes s W H ! ((y * W + x) * 4 + k) = pixelBytes s W H x y ! k"
proof -
  have xk: "x * 4 + k < W * 4" using assms by simp
  have "(y * W + x) * 4 + k = y * (W * 4) + (x * 4 + k)" by (simp add: algebra_simps)
  then have "frameBytes s W H ! ((y * W + x) * 4 + k)
             = concat (map (rowBytes s W H) [0..<H]) ! (y * (W * 4) + (x * 4 + k))"
    by (simp only: frameBytes_def)
  also have "\<dots> = map (rowBytes s W H) [0..<H] ! y ! (x * 4 + k)"
    using assms(2) xk by (intro nth_concat_blocks) (auto simp: length_rowBytes)
  also have "\<dots> = rowBytes s W H y ! (x * 4 + k)" using assms(2) by simp
  also have "\<dots> = map (\<lambda>x. pixelBytes s W H x y) [0..<W] ! x ! k"
    unfolding rowBytes_def using assms(1,3)
    by (intro nth_concat_blocks) (auto simp: length_pixelBytes)
  also have "\<dots> = pixelBytes s W H x y ! k" using assms(1) by simp
  finally show ?thesis .
qed

lemma length_frameBytes: "length (frameBytes s W H) = W * H * 4"
  by (simp add: frameBytes_def length_concat comp_def length_rowBytes sum_list_triv)

lemma store_clamped_unit:
  assumes "0 \<le> c" and "c \<le> (1::real)"
  shows "int (store_clamped \<lfloor>c * 255\<rfloor>) = \<lfloor>c * 255\<rfloor>"
proof -
  have "0 \<le> c * 255" using assms by simp
  then have lo: "0 \<le> \<lfloor>c * 255\<rfloor>" by simp
  have "c * 255 \<le> 255" using assms by simp
  then have "\<lfloor>c * 255\<rfloor> \<le> \<lfloor>255::real\<rfloor>" by (rule floor_mono)
  then have hi: "\<lfloor>c * 255\<rfloor> \<le> 255" by simp
  from lo hi show ?thesis by (simp add: store_clamped_def)
qed

lemma render_imageData:
  assumes "length (imageData rd) = width rd * height rd * 4"
  shows "imageData (render rd) = frameBytes (scene rd) (width rd) (height rd)"
  using renderRows_frame[OF assms] by (simp add: render_def)

text \<open>
  C7. For every pixel \<open>(x, y)\<close> of a \<open>W\<close> by \<open>H\<close> render, with \<open>px = (x/W) * 2 - 1\<close> and
  \<open>py = -(y/H) * 2 + 1\<close>, the ray starts at the camera position \<open>(0, 2, 10)\<close> and has
  the direction \<open>(px, py, -1)\<close> normalized; with \<open>c\<close> the colour traced for that ray,
  the buffer after \<open>render\<close> holds at the offsets \<open>(y * W + x) * 4\<close>, \<open>+ 1\<close>, \<open>+ 2\<close> the
  numbers \<open>floor (channel * 255)\<close> of \<open>c\<close> as stored in the byte array, and 255 at
  \<open>+ 3\<close>. The stored byte is \<open>floor (channel * 255)\<close> itself when the channel lies in
  \<open>[0, 1]\<close>.
\<close>

theorem render_pixel_bytes:
  "x < width rd \<and> y < height rd \<and> length (imageData rd) = width rd * height rd * 4 \<longrightarrow>
     (let W = width rd; H = height rd;
          px = (real x / real W) * 2 - 1;
          py = - (real y / real H) * 2 + 1;
          ray = new_Ray cameraPosition (Vector3 px py (- 1));
          c = trace (scene rd) ray 0 3;
          data = imageData (render rd);
          index = (y * W + x) * 4
      in origin ray = Vector3 0 2 10 \<and>
         direction ray = normalize_vec (Vector3 px py (- 1)) \<and>
         length data = W * H * 4 \<and>
         data ! index = store_clamped \<lfloor>vx c * 255\<rfloor> \<and>
         data ! (index + 1) = store_clamped \<lfloor>vy c * 255\<rfloor> \<and>
         data ! (index + 2) = store_clamped \<lfloor>vz c * 255\<rfloor> \<and>
         data ! (index + 3) = 255 \<and>
         (0 \<le> vx c \<and> vx c \<le> 1 \<longrightarrow> int (data ! index) = \<lfloor>vx c * 255\<rfloor>) \<and>
         (0 \<le> vy c \<and> vy c \<le> 1 \<longrightarrow> int (data ! (index + 1)) = \<lfloor>vy c * 255\<rfloor>) \<and>
         (0 \<le> vz c \<and> vz c \<le> 1 \<longrightarrow> int (data ! (index + 2)) = \<lfloor>vz c * 255\<rfloor>))"
proof (intro impI)
  assume a: "x < width rd \<and> y < height rd \<and> length (imageData rd) = width rd * height rd * 4"
  define W where "W = width rd"
  define H where "H = height rd"
  define c where "c = pixelColor (scene rd) W H x y"
  define data where "data = imageData (render rd)"
  have fr: "data = frameBytes (scene rd) W H"
    using a by (simp add: data_def W_def H_def render_imageData)
  have xy: "x < W" "y < H" using a by (simp_all add: W_def H_def)
  have nth: "data ! ((y * W + x) * 4 + k) = pixelBytes (scene rd) W H x y ! k" if "k < 4" for k
    unfolding fr using xy that by (rule frameBytes_nth)
  have b0: "data ! ((y * W + x) * 4) = store_clamped \<lfloor>vx c * 255\<rfloor>"
    using nth[of 0] by (simp add: pixelBytes_def Let_def c_def)
  have b1: "data ! ((y * W + x) * 4 + 1) = store_clamped \<lfloor>vy c * 255\<rfloor>"
    using nth[of 1] by (simp add: pixelBytes_def Let_def c_def)
  have b2: "data ! ((y * W + x) * 4 + 2) = store_clamped \<lfloor>vz c * 255\<rfloor>"
    using nth[of 2] by (simp add: pixelBytes_def Let_def c_def)
  have b3: "data ! ((y * W + x) * 4 + 3) = 255"
    using nth[of 3] by (simp add: pixelBytes_def Let_def)
  have len: "length data = W * H * 4" by (simp add: fr length_frameBytes)
  have u: "int (store_clamped \<lfloor>v * 255\<rfloor>) = \<lfloor>v * 255\<rfloor>" if "0 \<le> v \<and> v \<le> 1" for v :: real
    using that by (simp add: store_clamped_unit)
  show "let W = width rd; H = height rd;
          px = (real x / real W) * 2 - 1;
          py = - (real y / real H) * 2 + 1;
          ray = new_Ray cameraPosition (Vector3 px py (- 1));
          c = trace (scene rd) ray 0 3;
          data = imageData (render rd);
          index = (y * W + x) * 4
      in origin ray = Vector3 0 2 10 \<and>
         direction ray = normalize_vec (Vector3 px py (- 1)) \<and>
         length data = W * H * 4 \<and>
         data ! index = store_clamped \<lfloor>vx c * 255\<rfloor> \<and>
         data ! (index + 1) = store_clamped \<lfloor>vy c * 255\<rfloor> \<and>
         data ! (index + 2) = store_clamped \<lfloor>vz c * 255\<rfloor> \<and>
         data ! (index + 3) = 255 \<and>
         (0 \<le> vx c \<and> vx c \<le> 1 \<longrightarrow> int (data ! index) = \<lfloor>vx c * 255\<rfloor>) \<and>
         (0 \<le> vy c \<and> vy c \<le> 1 \<longrightarrow> int (data ! (index + 1)) = \<lfloor>vy c * 255\<rfloor>) \<and>
         (0 \<le> vz c \<and> vz c \<le> 1 \<longrightarrow> int (data ! (index + 2)) = \<lfloor>vz c * 255\<rfloor>)"
    unfolding Let_def W_def[symmetric] H_def[symmetric] data_def[symmetric]
      pixelColor_def[symmetric] c_def[symmetric] b0 b1 b2 b3
    using len u by (simp add: new_Ray_def cameraPosition_def)
qed

theorem render_pixel_bytes_witness:
  "imageData (render \<lparr>scene = new_Scene, width = 2, height = 2, imageData = replicate 16 0\<rparr>) ! 12 = 25 \<and>
   imageData (render \<lparr>scene = new_Scene, width = 2, height = 2, imageData = replicate 16 0\<rparr>) ! 13 = 25 \<and>
   imageData (render \<lparr>scene = new_Scene, width = 2, height = 2, imageData = replicate 16 0\<rparr>) ! 14 = 51 \<and>
   imageData (render \<lparr>scene = new_Scene, width = 2, height = 2, imageData = replicate 16 0\<rparr>) ! 15 = 255"
proof -
  let ?rd = "\<lparr>scene = new_Scene, width = 2, height = 2, imageData = replicate 16 0\<rparr>"
  have bg: "trace new_Scene ray 0 3 = Vector3 (1 / 10) (1 / 10) (2 / 10)" for ray
    by (simp add: trace_def new_Scene_def)
  have h: "(1::nat) < width ?rd \<and> 1 < height ?rd \<and> length (imageData ?rd) = width ?rd * height ?rd * 4"
    by simp
  from render_pixel_bytes[of 1 ?rd 1] h
  show ?thesis
    unfolding Let_def by (simp add: bg store_clamped_def)
qed

text \<open>
  C9. For every renderer whose buffer has \<open>width * height * 4\<close> bytes, \<open>render\<close> leaves
  the scene and the size unchanged, rendering a second time changes nothing, and the
  rendered buffer does not depend on what the buffer held before.
\<close>

theorem render_idempotent:
  "length (imageData rd) = width rd * height rd * 4 \<longrightarrow>
     render (render rd) = render rd \<and>
     scene (render rd) = scene rd \<and> width (render rd) = width rd \<and> height (render rd) = height rd \<and>
     (\<forall>previous. length previous = width rd * height rd * 4 \<longrightarrow>
        imageData (render (rd\<lparr>imageData := previous\<rparr>)) = imageData (render rd))"
proof (intro impI)
  assume a: "length (imageData rd) = width rd * height rd * 4"
  have keep: "scene (render rd) = scene rd \<and> width (render rd) = width rd \<and>
              height (render rd) = height rd"
    by (simp add: render_def)
  have fr: "imageData (render rd) = frameBytes (scene rd) (width rd) (height rd)"
    using a by (rule render_imageData)
  have "length (imageData (render rd)) = width (render rd) * height (render rd) * 4"
    using keep by (simp add: fr length_frameBytes)
  then have "imageData (render (render rd)) = frameBytes (scene rd) (width rd) (height rd)"
    using keep by (simp add: render_imageData)
  then have same: "imageData (render (render rd)) = imageData (render rd)"
    by (simp only: fr)
  have "render (render rd) = (render rd)\<lparr>imageData := imageData (render (render rd))\<rparr>"
    by (simp add: render_def[of "render rd"])
  then have "render (render rd) = (render rd)\<lparr>imageData := imageData (render rd)\<rparr>"
    by (simp only: same)
  then have twice: "render (render rd) = render rd"
    by simp
  have prev: "imageData (render (rd\<lparr>imageData := previous\<rparr>)) = imageData (render rd)"
    if "length previous = width rd * height rd * 4" for previous
    using render_imageData[of "rd\<lparr>imageData := previous\<rparr>"] that fr by simp
  from twice keep prev
  show "render (render rd) = render rd \<and>
     scene (render rd) = scene rd \<and> width (render rd) = width rd \<and> height (render rd) = height rd \<and>
     (\<forall>previous. length previous = width rd * height rd * 4 \<longrightarrow>
        imageData (render (rd\<lparr>imageData := previous\<rparr>)) = imageData (render rd))"
    by blast
qed

theorem render_idempotent_witness:
  "render (render \<lparr>scene = new_Scene, width = 2, height = 2, imageData = replicate 16 0\<rparr>)
     = render \<lparr>scene = new_Scene, width = 2, height = 2, imageData = replicate 16 0\<rparr> \<and>
   imageData (render \<lparr>scene = new_Scene, width = 2, height = 2, imageData = replicate 16 7\<rparr>)
     = imageData (render \<lparr>scene = new_Scene, width = 2, height = 2, imageData = replicate 16 0\<rparr>)"
proof -
  let ?rd = "\<lparr>scene = new_Scene, width = 2, height = 2, imageData = replicate 16 0\<rparr>"
  have h: "length (imageData ?rd) = width ?rd * height ?rd * 4" by simp
  have p: "length (replicate 16 (7::nat)) = width ?rd * height ?rd * 4" by simp
  have u: "?rd\<lparr>imageData := replicate 16 7\<rparr>
           = \<lparr>scene = new_Scene, width = 2, height = 2, imageData = replicate 16 7\<rparr>"
    by simp
  note T = render_idempotent[of ?rd, THEN mp, OF h]
  have A: "render (render ?rd) = render ?rd"
    by (rule T[THEN conjunct1])
  have B: "imageData (render (?rd\<lparr>imageData := replicate 16 7\<rparr>)) = imageData (render ?rd)"
    by (rule T[THEN conjunct2, THEN conjunct2, THEN conjunct2, THEN conjunct2, THEN spec, THEN mp, OF p])
  from A B show ?thesis by (simp only: u simp_thms)
qed

end
